theory Spec2Isabelle
  imports Complex_Main "HOL-Library.Word"
begin

section \<open>The field decoder of logical/framework/field\_data.go\<close>

text \<open>
  A shallow embedding of \<^verbatim>\<open>FieldData\<close> and its methods \<^verbatim>\<open>Validate\<close>,
  \<^verbatim>\<open>Get\<close>, \<^verbatim>\<open>GetDefaultOrZero\<close>, \<^verbatim>\<open>GetOk\<close>, \<^verbatim>\<open>GetOkErr\<close> and
  \<^verbatim>\<open>getPrimitive\<close>. Go's \<^verbatim>\<open>int\<close> is taken to be 64 bits wide.
\<close>

subsection \<open>Dynamic values\<close>

text \<open>
  A float is kept by its exact value when it is finite. Go leaves the conversion of a
  float that does not fit the integer type to the implementation.
\<close>

datatype go_float = Finite rat | NaN | PosInf | NegInf

text \<open>
  The dynamic values an \<^verbatim>\<open>interface{}\<close> can hold: \<^verbatim>\<open>nil\<close>, the basic kinds that
  the type switch of \<^verbatim>\<open>getPrimitive\<close> tells apart, the remaining integer kinds, the
  collection shapes the decoder returns, and \<open>VOther\<close> for a value of any other dynamic
  type (named by its type).
\<close>

datatype go_value =
    VNil
  | VBool bool
  | VInt "64 word"
  | VInt8 "8 word"
  | VInt16 "16 word"
  | VInt32 "32 word"
  | VInt64 "64 word"
  | VUint "64 word"
  | VUint8 "8 word"
  | VUint16 "16 word"
  | VUint32 "32 word"
  | VUint64 "64 word"
  | VFloat32 go_float
  | VFloat64 go_float
  | VString string
  | VJsonNumber string
  | VSlice "go_value list"
  | VStringSlice "string list"
  | VMap "(string \<times> go_value) list"
  | VOther string

subsection \<open>Field types and schemas\<close>

text \<open>
  Modelled from the spec: the declaration of \<^verbatim>\<open>FieldType\<close> is not among the sources.
  The spec gives a closed set of nine recognized kinds; \<open>TypeUnrecognized n\<close> stands for
  any other value of the type.
\<close>

datatype FieldType =
    TypeBool
  | TypeInt
  | TypeMap
  | TypeDurationSecond
  | TypeString
  | TypeNameString
  | TypeSlice
  | TypeStringSlice
  | TypeCommaStringSlice
  | TypeUnrecognized nat

text \<open>
  Modelled from the spec: the declaration of \<^verbatim>\<open>FieldSchema\<close> is not among the sources.
  It has a type and an optional default; as in Go, an unset default is \<^verbatim>\<open>nil\<close>.
\<close>

record FieldSchema =
  Type :: FieldType
  Default :: go_value

text \<open>
  The decoder. Both fields are Go maps, read as partial functions; an entry of the schema
  map is taken to point to a schema, and the receiver of a method to a decoder.
\<close>

record FieldData =
  Raw :: "string \<rightharpoonup> go_value"
  Schema :: "string \<rightharpoonup> FieldSchema"

subsection \<open>Errors and aborts\<close>

datatype err =
    UnknownField string
      \<comment> \<open>\<^verbatim>\<open>"unknown field: %s"\<close>\<close>
  | UnknownFieldType FieldType string
      \<comment> \<open>\<^verbatim>\<open>"unknown field type %s for field %s"\<close>\<close>
  | ErrorConverting go_value string err
      \<comment> \<open>\<^verbatim>\<open>"Error converting input %v for field %s: %s"\<close>\<close>
  | FormattingRules
      \<comment> \<open>\<^verbatim>\<open>"field does not match the formatting rules"\<close>\<close>
  | InvalidInput go_value
      \<comment> \<open>\<^verbatim>\<open>"invalid input '%v'"\<close>\<close>
  | LibraryError string
      \<comment> \<open>an error returned by a library call\<close>

datatype panic =
    NotInSchema string
      \<comment> \<open>\<^verbatim>\<open>"field %s not in the schema"\<close>\<close>
  | ErrorReading string err
      \<comment> \<open>\<^verbatim>\<open>"error reading %s: %s"\<close>\<close>
  | UnknownType FieldType
      \<comment> \<open>\<^verbatim>\<open>"Unknown type: %s"\<close>, the default case of \<^verbatim>\<open>getPrimitive\<close>\<close>
  | NoZeroValue FieldType
      \<comment> \<open>the zero value of an unrecognized kind\<close>

datatype 'a outcome = Return 'a | Panic panic

text \<open>
  A method call on a decoder yields its outcome and the decoder as the call leaves it.
\<close>

type_synonym 'a call = "'a outcome \<times> FieldData"

subsection \<open>Library calls\<close>

text \<open>
  The libraries that \<^verbatim>\<open>getPrimitive\<close> calls are not among the sources; each call is
  a parameter. \<open>WeakDecode*\<close> is \<^verbatim>\<open>mapstructure.WeakDecode\<close> into a zero-valued
  variable of the target type; \<open>NewDecoder\<close> is \<^verbatim>\<open>mapstructure.NewDecoder\<close> for the
  configuration with weakly typed input and the hook splitting a string at commas, giving
  the decoder's \<^verbatim>\<open>Decode\<close>; \<open>ParseDurationSecond\<close> gives a \<^verbatim>\<open>time.Duration\<close>
  (nanoseconds in 64 bits); \<open>Seconds\<close> is \<^verbatim>\<open>time.Duration.Seconds\<close>;
  \<open>JsonNumberInt64\<close> is \<^verbatim>\<open>json.Number.Int64\<close>; \<open>TrimStrings\<close> is
  \<^verbatim>\<open>strutil.TrimStrings\<close>; \<open>FloatOutOfRange\<close> is the implementation's result of
  converting a float that an \<^verbatim>\<open>int\<close> cannot represent.
\<close>

record libs =
  WeakDecodeBool :: "go_value \<Rightarrow> err + bool"
  WeakDecodeInt :: "go_value \<Rightarrow> err + 64 word"
  WeakDecodeString :: "go_value \<Rightarrow> err + string"
  WeakDecodeMap :: "go_value \<Rightarrow> err + (string \<times> go_value) list"
  WeakDecodeSlice :: "go_value \<Rightarrow> err + go_value list"
  WeakDecodeStringSlice :: "go_value \<Rightarrow> err + string list"
  NewDecoder :: "err + (go_value \<Rightarrow> err + string list)"
  ParseDurationSecond :: "string \<Rightarrow> err + 64 word"
  Seconds :: "64 word \<Rightarrow> go_float"
  JsonNumberInt64 :: "string \<Rightarrow> err + 64 word"
  TrimStrings :: "string list \<Rightarrow> string list"
  FloatOutOfRange :: "go_float \<Rightarrow> 64 word"

subsection \<open>Conversions to int\<close>

text \<open>\<^verbatim>\<open>int(f)\<close> for a float: the fraction is discarded, towards zero.\<close>

definition truncate_rat :: "rat \<Rightarrow> int" where
  "truncate_rat r = (if 0 \<le> r then \<lfloor>r\<rfloor> else \<lceil>r\<rceil>)"

definition float_to_int :: "libs \<Rightarrow> go_float \<Rightarrow> 64 word" where
  "float_to_int L f =
     (case f of
        Finite r \<Rightarrow>
          (let t = truncate_rat r
           in if - (2 ^ 63) \<le> t \<and> t < 2 ^ 63 then word_of_int t else FloatOutOfRange L f)
      | _ \<Rightarrow> FloatOutOfRange L f)"

subsection \<open>The pattern of name strings\<close>

text \<open>
  \<^verbatim>\<open>regexp.MatchString\<close> is library code; its patterns are modelled by their syntax
  tree, matched by derivatives. \<open>Atom p\<close> is a character class.
\<close>

datatype rexp =
    Zero
  | One
  | Atom "char \<Rightarrow> bool"
  | Alt rexp rexp
  | Seq rexp rexp
  | Star rexp
  | Plus rexp
  | Opt rexp

fun nullable :: "rexp \<Rightarrow> bool" where
  "nullable Zero = False"
| "nullable One = True"
| "nullable (Atom p) = False"
| "nullable (Alt r s) = (nullable r \<or> nullable s)"
| "nullable (Seq r s) = (nullable r \<and> nullable s)"
| "nullable (Star r) = True"
| "nullable (Plus r) = nullable r"
| "nullable (Opt r) = True"

fun deriv :: "char \<Rightarrow> rexp \<Rightarrow> rexp" where
  "deriv c Zero = Zero"
| "deriv c One = Zero"
| "deriv c (Atom p) = (if p c then One else Zero)"
| "deriv c (Alt r s) = Alt (deriv c r) (deriv c s)"
| "deriv c (Seq r s) =
     (if nullable r then Alt (Seq (deriv c r) s) (deriv c s) else Seq (deriv c r) s)"
| "deriv c (Star r) = Seq (deriv c r) (Star r)"
| "deriv c (Plus r) = Seq (deriv c r) (Star r)"
| "deriv c (Opt r) = deriv c r"

fun derivs :: "string \<Rightarrow> rexp \<Rightarrow> rexp" where
  "derivs [] r = r"
| "derivs (c # cs) r = derivs cs (deriv c r)"

text \<open>
  A pattern between \<^verbatim>\<open>^\<close> and \<^verbatim>\<open>$\<close> (no flags) matches a string when it matches the
  whole of it. \<^verbatim>\<open>MatchString\<close> returns an error only when the pattern does not compile.
\<close>

definition MatchString :: "rexp \<Rightarrow> string \<Rightarrow> err + bool" where
  "MatchString r s = Inr (nullable (derivs s r))"

text \<open>The class \<^verbatim>\<open>\w\<close> is \<^verbatim>\<open>[0-9A-Za-z_]\<close>.\<close>

definition word_char :: "char \<Rightarrow> bool" where
  "word_char c =
     (c \<in> set ''0123456789ABCDEFGHIJKLMNOPQRSTUVWXYZ_abcdefghijklmnopqrstuvwxyz'')"

text \<open>The class \<^verbatim>\<open>[\w-.]\<close>: a word character, a hyphen or a period.\<close>

definition name_char :: "char \<Rightarrow> bool" where
  "name_char c = (word_char c \<or> c = CHR ''-'' \<or> c = CHR ''.'')"

text \<open>The pattern \<^verbatim>\<open>^\w(([\w-.]+)?\w)?$\<close> without its anchors and captures.\<close>

definition name_pattern :: rexp where
  "name_pattern =
     Seq (Atom word_char) (Opt (Seq (Opt (Plus (Atom name_char))) (Atom word_char)))"

subsection \<open>getPrimitive\<close>

definition recognized :: "FieldType \<Rightarrow> bool" where
  "recognized t =
     (case t of
        TypeBool \<Rightarrow> True | TypeInt \<Rightarrow> True | TypeMap \<Rightarrow> True
      | TypeDurationSecond \<Rightarrow> True | TypeString \<Rightarrow> True | TypeNameString \<Rightarrow> True
      | TypeSlice \<Rightarrow> True | TypeStringSlice \<Rightarrow> True | TypeCommaStringSlice \<Rightarrow> True
      | TypeUnrecognized n \<Rightarrow> False)"

type_synonym prim = "go_value \<times> bool \<times> err option"

text \<open>The case \<^verbatim>\<open>TypeNameString\<close>.\<close>

definition getNameString :: "libs \<Rightarrow> go_value \<Rightarrow> prim" where
  "getNameString L raw =
     (case WeakDecodeString L raw of
        Inl e \<Rightarrow> (VNil, True, Some e)
      | Inr result \<Rightarrow>
          (case MatchString name_pattern result of
             Inl e \<Rightarrow> (VNil, True, Some e)
           | Inr matched \<Rightarrow>
               if \<not> matched then (VNil, True, Some FormattingRules)
               else (VString result, True, None)))"

text \<open>The case \<^verbatim>\<open>TypeDurationSecond\<close>, a type switch on the raw value.\<close>

definition getDurationSecond :: "libs \<Rightarrow> go_value \<Rightarrow> prim" where
  "getDurationSecond L raw =
     (case raw of
        VNil \<Rightarrow> (VNil, False, None)
      | VInt inp \<Rightarrow> (VInt inp, True, None)
      | VInt32 inp \<Rightarrow> (VInt (scast inp), True, None)
      | VInt64 inp \<Rightarrow> (VInt inp, True, None)
      | VUint inp \<Rightarrow> (VInt inp, True, None)
      | VUint32 inp \<Rightarrow> (VInt (ucast inp), True, None)
      | VUint64 inp \<Rightarrow> (VInt inp, True, None)
      | VFloat32 inp \<Rightarrow> (VInt (float_to_int L inp), True, None)
      | VFloat64 inp \<Rightarrow> (VInt (float_to_int L inp), True, None)
      | VString inp \<Rightarrow>
          (case ParseDurationSecond L inp of
             Inl e \<Rightarrow> (VNil, True, Some e)
           | Inr dur \<Rightarrow> (VInt (float_to_int L (Seconds L dur)), True, None))
      | VJsonNumber inp \<Rightarrow>
          (case JsonNumberInt64 L inp of
             Inl e \<Rightarrow> (VNil, True, Some e)
           | Inr valInt64 \<Rightarrow> (VInt valInt64, True, None))
      | _ \<Rightarrow> (VNil, False, Some (InvalidInput raw)))"

text \<open>The case \<^verbatim>\<open>TypeCommaStringSlice\<close>.\<close>

definition getCommaStringSlice :: "libs \<Rightarrow> go_value \<Rightarrow> prim" where
  "getCommaStringSlice L raw =
     (case NewDecoder L of
        Inl e \<Rightarrow> (VNil, False, Some e)
      | Inr decode \<Rightarrow>
          (case decode raw of
             Inl e \<Rightarrow> (VNil, False, Some e)
           | Inr result \<Rightarrow> (VStringSlice (TrimStrings L result), True, None)))"

definition getPrimitive :: "libs \<Rightarrow> string \<Rightarrow> FieldSchema \<Rightarrow> FieldData \<Rightarrow> prim call" where
  "getPrimitive L k schema d =
     (case Raw d k of
        None \<Rightarrow> (Return (VNil, False, None), d)
      | Some raw \<Rightarrow>
          (case Type schema of
             TypeBool \<Rightarrow>
               (case WeakDecodeBool L raw of
                  Inl e \<Rightarrow> (Return (VNil, True, Some e), d)
                | Inr result \<Rightarrow> (Return (VBool result, True, None), d))
           | TypeInt \<Rightarrow>
               (case WeakDecodeInt L raw of
                  Inl e \<Rightarrow> (Return (VNil, True, Some e), d)
                | Inr result \<Rightarrow> (Return (VInt result, True, None), d))
           | TypeString \<Rightarrow>
               (case WeakDecodeString L raw of
                  Inl e \<Rightarrow> (Return (VNil, True, Some e), d)
                | Inr result \<Rightarrow> (Return (VString result, True, None), d))
           | TypeNameString \<Rightarrow> (Return (getNameString L raw), d)
           | TypeMap \<Rightarrow>
               (case WeakDecodeMap L raw of
                  Inl e \<Rightarrow> (Return (VNil, True, Some e), d)
                | Inr result \<Rightarrow> (Return (VMap result, True, None), d))
           | TypeDurationSecond \<Rightarrow> (Return (getDurationSecond L raw), d)
           | TypeSlice \<Rightarrow>
               (case WeakDecodeSlice L raw of
                  Inl e \<Rightarrow> (Return (VNil, True, Some e), d)
                | Inr result \<Rightarrow> (Return (VSlice result, True, None), d))
           | TypeStringSlice \<Rightarrow>
               (case WeakDecodeStringSlice L raw of
                  Inl e \<Rightarrow> (Return (VNil, True, Some e), d)
                | Inr result \<Rightarrow> (Return (VStringSlice (TrimStrings L result), True, None), d))
           | TypeCommaStringSlice \<Rightarrow> (Return (getCommaStringSlice L raw), d)
           | TypeUnrecognized n \<Rightarrow> (Panic (UnknownType (Type schema)), d)))"

subsection \<open>Defaults\<close>

text \<open>
  Modelled from the spec: \<^verbatim>\<open>FieldType.Zero\<close> is not among the sources. The zero value
  of a type is its canonical empty instance (false, 0, empty string, empty collection); an
  unrecognized kind is a hard failure wherever it is met.
\<close>

definition Zero_value :: "FieldType \<Rightarrow> go_value outcome" where
  "Zero_value t =
     (case t of
        TypeBool \<Rightarrow> Return (VBool False)
      | TypeInt \<Rightarrow> Return (VInt 0)
      | TypeMap \<Rightarrow> Return (VMap [])
      | TypeDurationSecond \<Rightarrow> Return (VInt 0)
      | TypeString \<Rightarrow> Return (VString [])
      | TypeNameString \<Rightarrow> Return (VString [])
      | TypeSlice \<Rightarrow> Return (VSlice [])
      | TypeStringSlice \<Rightarrow> Return (VStringSlice [])
      | TypeCommaStringSlice \<Rightarrow> Return (VStringSlice [])
      | TypeUnrecognized n \<Rightarrow> Panic (NoZeroValue t))"

text \<open>
  Modelled from the spec: \<^verbatim>\<open>FieldSchema.DefaultOrZero\<close> is not among the sources. It
  is the schema's configured default, or the type's zero value if none is configured.
\<close>

definition DefaultOrZero :: "FieldSchema \<Rightarrow> go_value outcome" where
  "DefaultOrZero schema =
     (if Default schema \<noteq> VNil then Return (Default schema) else Zero_value (Type schema))"

subsection \<open>The accessors\<close>

definition GetOkErr :: "libs \<Rightarrow> string \<Rightarrow> FieldData \<Rightarrow> prim call" where
  "GetOkErr L k d =
     (case Schema d k of
        None \<Rightarrow> (Return (VNil, False, Some (UnknownField k)), d)
      | Some schema \<Rightarrow>
          if recognized (Type schema) then getPrimitive L k schema d
          else (Return (VNil, False, Some (UnknownFieldType (Type schema) k)), d))"

definition GetOk :: "libs \<Rightarrow> string \<Rightarrow> FieldData \<Rightarrow> (go_value \<times> bool) call" where
  "GetOk L k d =
     (case Schema d k of
        None \<Rightarrow> (Return (VNil, False), d)
      | Some schema \<Rightarrow>
          (case GetOkErr L k d of
             (Panic p, d') \<Rightarrow> (Panic p, d')
           | (Return (result, ok, Some e), d') \<Rightarrow> (Panic (ErrorReading k e), d')
           | (Return (result, ok, None), d') \<Rightarrow>
               if ok \<and> result = VNil then
                 (case DefaultOrZero schema of
                    Panic p \<Rightarrow> (Panic p, d')
                  | Return v \<Rightarrow> (Return (v, ok), d'))
               else (Return (result, ok), d')))"

definition Get :: "libs \<Rightarrow> string \<Rightarrow> FieldData \<Rightarrow> go_value call" where
  "Get L k d =
     (case Schema d k of
        None \<Rightarrow> (Panic (NotInSchema k), d)
      | Some schema \<Rightarrow>
          (case GetOk L k d of
             (Panic p, d') \<Rightarrow> (Panic p, d')
           | (Return (v, ok), d') \<Rightarrow>
               if \<not> ok then (DefaultOrZero schema, d') else (Return v, d')))"

definition GetDefaultOrZero :: "string \<Rightarrow> FieldData \<Rightarrow> go_value call" where
  "GetDefaultOrZero k d =
     (case Schema d k of
        None \<Rightarrow> (Panic (NotInSchema k), d)
      | Some schema \<Rightarrow> (DefaultOrZero schema, d))"

subsection \<open>Validate\<close>

text \<open>
  Go visits the entries of a map in an order of its own choosing, which may differ from
  one \<^verbatim>\<open>range\<close> to the next. The entries in the order of the visit are an argument
  of \<open>Validate\<close>; \<open>ranges kvs d\<close> says that \<open>kvs\<close> is such a visit of \<open>Raw d\<close>.
\<close>

definition ranges :: "(string \<times> go_value) list \<Rightarrow> FieldData \<Rightarrow> bool" where
  "ranges kvs d = (distinct (map fst kvs) \<and> map_of kvs = Raw d)"

fun Validate :: "libs \<Rightarrow> (string \<times> go_value) list \<Rightarrow> FieldData \<Rightarrow> err option call" where
  "Validate L [] d = (Return None, d)"
| "Validate L ((field, v) # rest) d =
     (case Schema d field of
        None \<Rightarrow> Validate L rest d
      | Some schema \<Rightarrow>
          if recognized (Type schema) then
            (case getPrimitive L field schema d of
               (Panic p, d') \<Rightarrow> (Panic p, d')
             | (Return (_, _, Some e), d') \<Rightarrow> (Return (Some (ErrorConverting v field e)), d')
             | (Return (_, _, None), d') \<Rightarrow> Validate L rest d')
          else (Return (Some (UnknownFieldType (Type schema) field)), d))"

subsection \<open>The rules of the spec\<close>

text \<open>
  The rule of the spec for a name string: it starts and ends with a word character, and
  its interior characters are word characters, hyphens or periods.
\<close>

definition name_rule :: "string \<Rightarrow> bool" where
  "name_rule s =
     (s \<noteq> [] \<and> word_char (hd s) \<and> word_char (last s) \<and> list_all name_char (butlast (tl s)))"

text \<open>
  The strings a pattern stands for; the matcher is shown to decide membership.
\<close>

inductive_set iter :: "string set \<Rightarrow> string set" for A :: "string set" where
  iter_empty: "[] \<in> iter A"
| iter_more: "u \<in> A \<Longrightarrow> v \<in> iter A \<Longrightarrow> u @ v \<in> iter A"

definition cat :: "string set \<Rightarrow> string set \<Rightarrow> string set" where
  "cat A B = {u @ v | u v. u \<in> A \<and> v \<in> B}"

fun denotes :: "rexp \<Rightarrow> string set" where
  "denotes Zero = {}"
| "denotes One = {[]}"
| "denotes (Atom p) = {[c] | c. p c}"
| "denotes (Alt r s) = denotes r \<union> denotes s"
| "denotes (Seq r s) = cat (denotes r) (denotes s)"
| "denotes (Star r) = iter (denotes r)"
| "denotes (Plus r) = cat (denotes r) (iter (denotes r))"
| "denotes (Opt r) = insert [] (denotes r)"

text \<open>
  The numeric kinds that the duration case converts to a count of seconds, with the
  result of the conversion: every kind keeps its bits or is extended to 64 bits, a float
  loses its fraction.
\<close>

definition numeric_seconds :: "libs \<Rightarrow> go_value \<Rightarrow> 64 word option" where
  "numeric_seconds L raw =
     (case raw of
        VInt n \<Rightarrow> Some n
      | VInt32 n \<Rightarrow> Some (scast n)
      | VInt64 n \<Rightarrow> Some n
      | VUint n \<Rightarrow> Some n
      | VUint32 n \<Rightarrow> Some (ucast n)
      | VUint64 n \<Rightarrow> Some n
      | VFloat32 f \<Rightarrow> Some (float_to_int L f)
      | VFloat64 f \<Rightarrow> Some (float_to_int L f)
      | _ \<Rightarrow> None)"

text \<open>
  The coercion table of the spec, as the condition under which the coercion of a present
  raw value to a recognized type fails.
\<close>

definition coercion_fails :: "libs \<Rightarrow> FieldType \<Rightarrow> go_value \<Rightarrow> bool" where
  "coercion_fails L t raw =
     (case t of
        TypeBool \<Rightarrow> isl (WeakDecodeBool L raw)
      | TypeInt \<Rightarrow> isl (WeakDecodeInt L raw)
      | TypeMap \<Rightarrow> isl (WeakDecodeMap L raw)
      | TypeDurationSecond \<Rightarrow>
          (case raw of
             VNil \<Rightarrow> False
           | VString inp \<Rightarrow> isl (ParseDurationSecond L inp)
           | VJsonNumber inp \<Rightarrow> isl (JsonNumberInt64 L inp)
           | _ \<Rightarrow> numeric_seconds L raw = None)
      | TypeString \<Rightarrow> isl (WeakDecodeString L raw)
      | TypeNameString \<Rightarrow>
          (case WeakDecodeString L raw of Inl e \<Rightarrow> True | Inr s \<Rightarrow> \<not> name_rule s)
      | TypeSlice \<Rightarrow> isl (WeakDecodeSlice L raw)
      | TypeStringSlice \<Rightarrow> isl (WeakDecodeStringSlice L raw)
      | TypeCommaStringSlice \<Rightarrow>
          (case NewDecoder L of Inl e \<Rightarrow> True | Inr decode \<Rightarrow> isl (decode raw))
      | TypeUnrecognized n \<Rightarrow> False)"

text \<open>A present key of the schema coerces when its type is recognized and the coercion does not fail.\<close>

definition coerces :: "libs \<Rightarrow> FieldSchema \<Rightarrow> go_value \<Rightarrow> bool" where
  "coerces L schema raw = (recognized (Type schema) \<and> \<not> coercion_fails L (Type schema) raw)"

subsection \<open>Sequences of operations\<close>

datatype op =
    OpValidate "(string \<times> go_value) list"
  | OpGet string
  | OpGetDefaultOrZero string
  | OpGetOk string
  | OpGetOkErr string

datatype result =
    RValidate "err option"
  | RGet go_value
  | RGetOk "go_value \<times> bool"
  | RGetOkErr prim

definition tag :: "('a \<Rightarrow> result) \<Rightarrow> 'a call \<Rightarrow> result call" where
  "tag f c = (case c of (Return x, d) \<Rightarrow> (Return (f x), d) | (Panic p, d) \<Rightarrow> (Panic p, d))"

definition exec :: "libs \<Rightarrow> op \<Rightarrow> FieldData \<Rightarrow> result call" where
  "exec L o' d =
     (case o' of
        OpValidate kvs \<Rightarrow> tag RValidate (Validate L kvs d)
      | OpGet k \<Rightarrow> tag RGet (Get L k d)
      | OpGetDefaultOrZero k \<Rightarrow> tag RGet (GetDefaultOrZero k d)
      | OpGetOk k \<Rightarrow> tag RGetOk (GetOk L k d)
      | OpGetOkErr k \<Rightarrow> tag RGetOkErr (GetOkErr L k d))"

text \<open>A sequence of calls; an abort ends it.\<close>

fun run :: "libs \<Rightarrow> op list \<Rightarrow> FieldData \<Rightarrow> FieldData" where
  "run L [] d = d"
| "run L (o' # os) d =
     (case exec L o' d of
        (Return r, d') \<Rightarrow> run L os d'
      | (Panic p, d') \<Rightarrow> d')"

subsection \<open>Libraries for the examples\<close>

text \<open>The value of a decimal digit, and of a string of decimal digits.\<close>

definition digit_value :: "char \<Rightarrow> nat option" where
  "digit_value c =
     map_of [(CHR ''0'', 0), (CHR ''1'', 1), (CHR ''2'', 2), (CHR ''3'', 3), (CHR ''4'', 4),
             (CHR ''5'', 5), (CHR ''6'', 6), (CHR ''7'', 7), (CHR ''8'', 8), (CHR ''9'', 9)] c"

fun digits_value :: "nat \<Rightarrow> string \<Rightarrow> nat option" where
  "digits_value acc [] = Some acc"
| "digits_value acc (c # cs) =
     (case digit_value c of None \<Rightarrow> None | Some v \<Rightarrow> digits_value (10 * acc + v) cs)"

text \<open>
  Modelled from the spec: the units of the duration parser are not among the sources. The
  spec names seconds and minutes by example; hours are added here.
\<close>

definition unit_seconds :: "char \<Rightarrow> nat option" where
  "unit_seconds c =
     (if c = CHR ''s'' then Some 1 else if c = CHR ''m'' then Some 60
      else if c = CHR ''h'' then Some 3600 else None)"

text \<open>
  Modelled from the spec: the duration parser is not among the sources. It accepts
  human-readable durations such as \<^verbatim>\<open>30s\<close> and \<^verbatim>\<open>5m\<close>: a decimal count followed by
  a unit. Everything else is a parse error. The duration is in nanoseconds.
\<close>

definition parse_duration :: "string \<Rightarrow> err + 64 word" where
  "parse_duration s =
     (if length s < 2 then Inl (LibraryError ''invalid duration'')
      else
        (case (unit_seconds (last s), digits_value 0 (butlast s)) of
           (Some u, Some n) \<Rightarrow> Inr (word_of_nat (n * u * 1000000000))
         | _ \<Rightarrow> Inl (LibraryError ''invalid duration'')))"

text \<open>
  Modelled from the spec: the numeric-string wire type is parsed as an integer, a decimal
  numeral with an optional sign that fits 64 bits.
\<close>

definition parse_int :: "string \<Rightarrow> err + 64 word" where
  "parse_int s =
     (let neg = (s \<noteq> [] \<and> hd s = CHR ''-''); ds = (if neg then tl s else s)
      in if ds = [] then Inl (LibraryError ''invalid number'')
         else
           (case digits_value 0 ds of
              None \<Rightarrow> Inl (LibraryError ''invalid number'')
            | Some n \<Rightarrow>
                if neg \<and> n \<le> 2 ^ 63 then Inr (- word_of_nat n)
                else if \<not> neg \<and> n < 2 ^ 63 then Inr (word_of_nat n)
                else Inl (LibraryError ''value out of range'')))"

text \<open>Modelled from the spec: the whole-second count of a duration, before truncation.\<close>

definition duration_seconds :: "64 word \<Rightarrow> go_float" where
  "duration_seconds dur = Finite (of_int (sint dur) / 1000000000)"

text \<open>
  Modelled from the spec: the whitespace of the string normalizer is not among the
  sources. It is taken to be the blank and the five ASCII control characters from tab to
  carriage return.
\<close>

definition is_space :: "char \<Rightarrow> bool" where
  "is_space c = (c \<in> set [CHR '' '', CHR 0x09, CHR 0x0A, CHR 0x0B, CHR 0x0C, CHR 0x0D])"

text \<open>
  Modelled from the spec: the string normalizer is not among the sources. It trims
  leading and trailing whitespace from each element, preserving order and count; this is
  its action on one element.
\<close>

definition trim_space :: "string \<Rightarrow> string" where
  "trim_space s = rev (dropWhile is_space (rev (dropWhile is_space s)))"

text \<open>
  Modelled from the spec: the comma-split variant of the weak decoder is not among the
  sources. It splits a single string at its commas into a sequence of strings.
\<close>

fun split_commas :: "string \<Rightarrow> string list" where
  "split_commas [] = [[]]"
| "split_commas (c # cs) =
     (if c = CHR '','' then [] # split_commas cs
      else (case split_commas cs of [] \<Rightarrow> [[c]] | w # ws \<Rightarrow> (c # w) # ws))"

text \<open>
  Modelled from the spec: the weak decoder is not among the sources. A value that already
  has the target shape decodes to itself. The conversions between representations, which
  the spec names without giving their results, are not modelled: here they fail, with this
  error.
\<close>

definition not_modelled :: err where
  "not_modelled = LibraryError ''conversion not modelled''"

text \<open>
  Modelled from the spec: the decoder of the comma-split variant is not among the sources.
  A single string is split at its commas; a sequence of strings decodes to itself.
\<close>

definition comma_decode :: "go_value \<Rightarrow> err + string list" where
  "comma_decode raw =
     (case raw of
        VString s \<Rightarrow> Inr (split_commas s)
      | VStringSlice xs \<Rightarrow> Inr xs
      | _ \<Rightarrow> Inl not_modelled)"

text \<open>
  Modelled from the spec: the libraries are not among the sources. This instance puts the
  models above together; an out-of-range float converts to the least \<^verbatim>\<open>int\<close>.
\<close>

definition spec_libs :: libs where
  "spec_libs =
     \<lparr> WeakDecodeBool = (\<lambda>raw. case raw of VBool b \<Rightarrow> Inr b | _ \<Rightarrow> Inl not_modelled),
       WeakDecodeInt = (\<lambda>raw. case raw of VInt n \<Rightarrow> Inr n | _ \<Rightarrow> Inl not_modelled),
       WeakDecodeString = (\<lambda>raw. case raw of VString s \<Rightarrow> Inr s | _ \<Rightarrow> Inl not_modelled),
       WeakDecodeMap = (\<lambda>raw. case raw of VMap m \<Rightarrow> Inr m | _ \<Rightarrow> Inl not_modelled),
       WeakDecodeSlice = (\<lambda>raw. case raw of VSlice xs \<Rightarrow> Inr xs | _ \<Rightarrow> Inl not_modelled),
       WeakDecodeStringSlice =
         (\<lambda>raw. case raw of VStringSlice xs \<Rightarrow> Inr xs | _ \<Rightarrow> Inl not_modelled),
       NewDecoder = Inr comma_decode,
       ParseDurationSecond = parse_duration,
       Seconds = duration_seconds,
       JsonNumberInt64 = parse_int,
       TrimStrings = map trim_space,
       FloatOutOfRange = (\<lambda>f. - (2 ^ 63)) \<rparr>"

subsection \<open>A decoder for the examples\<close>

definition example_schema :: "string \<rightharpoonup> FieldSchema" where
  "example_schema =
     [''name'' \<mapsto> \<lparr>Type = TypeNameString, Default = VNil\<rparr>,
      ''ttl'' \<mapsto> \<lparr>Type = TypeDurationSecond, Default = VInt 30\<rparr>,
      ''tags'' \<mapsto> \<lparr>Type = TypeCommaStringSlice, Default = VNil\<rparr>,
      ''note'' \<mapsto> \<lparr>Type = TypeString, Default = VNil\<rparr>,
      ''odd'' \<mapsto> \<lparr>Type = TypeUnrecognized 0, Default = VNil\<rparr>]"

definition decoder :: "(string \<rightharpoonup> go_value) \<Rightarrow> FieldData" where
  "decoder raw = \<lparr>Raw = raw, Schema = example_schema\<rparr>"

text \<open>Three raw records, each given by the entries in the order of a visit.\<close>

definition clean_visit :: "(string \<times> go_value) list" where
  "clean_visit = [(''extra'', VInt 7), (''note'', VString ''hello''), (''ttl'', VInt 90)]"

definition odd_visit :: "(string \<times> go_value) list" where
  "odd_visit = [(''note'', VString ''hello''), (''odd'', VInt 1), (''ttl'', VBool True)]"

definition offending_visit :: "(string \<times> go_value) list" where
  "offending_visit = [(''ttl'', VBool True), (''odd'', VInt 1)]"

section \<open>Properties\<close>

subsection \<open>The matcher decides the strings of a pattern\<close>

lemma cat_nil: "[] \<in> cat A B \<longleftrightarrow> [] \<in> A \<and> [] \<in> B"
  by (auto simp add: cat_def)

lemma cat_cons:
  "c # w \<in> cat A B \<longleftrightarrow>
     (\<exists>u v. w = u @ v \<and> c # u \<in> A \<and> v \<in> B) \<or> ([] \<in> A \<and> c # w \<in> B)"
  by (auto simp add: cat_def Cons_eq_append_conv)

lemma cat_atoms_snoc: "m @ [e] \<in> cat A {[c] | c. p c} \<longleftrightarrow> m \<in> A \<and> p e"
  by (auto simp add: cat_def)

lemma iter_cons_aux:
  "x \<in> iter A \<Longrightarrow> x = c # w \<Longrightarrow> \<exists>u v. w = u @ v \<and> c # u \<in> A \<and> v \<in> iter A"
proof (induction arbitrary: w rule: iter.induct)
  case iter_empty
  then show ?case by simp
next
  case (iter_more u v)
  show ?case
  proof (cases u)
    case Nil
    with iter_more show ?thesis by simp
  next
    case (Cons a u')
    with iter_more.prems have "a = c" "w = u' @ v" by simp_all
    with Cons iter_more.hyps show ?thesis by blast
  qed
qed

lemma iter_cons:
  "c # w \<in> iter A \<longleftrightarrow> (\<exists>u v. w = u @ v \<and> c # u \<in> A \<and> v \<in> iter A)"
proof
  assume "c # w \<in> iter A"
  then show "\<exists>u v. w = u @ v \<and> c # u \<in> A \<and> v \<in> iter A"
    by (rule iter_cons_aux) simp
next
  assume "\<exists>u v. w = u @ v \<and> c # u \<in> A \<and> v \<in> iter A"
  then obtain u v where "w = u @ v" "c # u \<in> A" "v \<in> iter A" by blast
  then show "c # w \<in> iter A"
    using iter_more [of "c # u" A v] by simp
qed

lemma nullable_denotes: "nullable r \<longleftrightarrow> [] \<in> denotes r"
  by (induction r) (auto simp add: cat_nil iter_empty)

lemma deriv_denotes: "w \<in> denotes (deriv c r) \<longleftrightarrow> c # w \<in> denotes r"
proof (induction r arbitrary: w)
  case (Seq r s)
  then show ?case
    by (auto simp add: cat_cons nullable_denotes) (auto simp add: cat_def)
next
  case (Star r)
  then show ?case
    by (auto simp add: iter_cons) (auto simp add: cat_def)
next
  case (Plus r)
  then show ?case
    by (auto simp add: cat_cons iter_cons) (auto simp add: cat_def)
qed auto

lemma derivs_denotes: "nullable (derivs w r) \<longleftrightarrow> w \<in> denotes r"
  by (induction w arbitrary: r) (simp_all add: nullable_denotes deriv_denotes)

lemma iter_atoms: "w \<in> iter {[c] | c. p c} \<longleftrightarrow> list_all p w"
proof (induction w)
  case Nil
  show ?case by (simp add: iter_empty)
next
  case (Cons a w)
  then show ?case by (auto simp add: iter_cons)
qed

text \<open>The pattern of name strings stands for the strings that the rule of the spec admits.\<close>

lemma name_pattern_denotes: "w \<in> denotes name_pattern \<longleftrightarrow> name_rule w"
proof (cases w)
  case Nil
  then show ?thesis by (simp add: name_pattern_def name_rule_def cat_nil)
next
  case (Cons c t)
  have inner: "t \<in> cat (insert [] (cat {[c] | c. name_char c} (iter {[c] | c. name_char c})))
                   {[c] | c. word_char c}
               \<longleftrightarrow> t \<noteq> [] \<and> list_all name_char (butlast t) \<and> word_char (last t)"
  proof (cases t rule: rev_cases)
    case Nil
    then show ?thesis by (simp add: cat_nil)
  next
    case (snoc m e)
    have "m \<in> insert [] (cat {[c] | c. name_char c} (iter {[c] | c. name_char c}))
          \<longleftrightarrow> list_all name_char m"
      by (cases m) (auto simp add: cat_cons iter_atoms)
    then show ?thesis using snoc by (simp add: cat_atoms_snoc)
  qed
  show ?thesis
    using Cons inner
    by (auto simp add: name_pattern_def name_rule_def cat_cons)
qed

lemma MatchString_name_pattern: "MatchString name_pattern s = Inr (name_rule s)"
  by (simp add: MatchString_def derivs_denotes name_pattern_denotes)

subsection \<open>getPrimitive\<close>

lemma getPrimitive_decoder: "snd (getPrimitive L k s d) = d"
  by (simp add: getPrimitive_def split: option.split FieldType.split sum.split)

lemma getPrimitive_absent:
  "Raw d k = None \<Longrightarrow> getPrimitive L k s d = (Return (VNil, False, None), d)"
  by (simp add: getPrimitive_def)

lemma getPrimitive_no_panic:
  "recognized (Type s) \<Longrightarrow> fst (getPrimitive L k s d) \<noteq> Panic p"
  by (cases "Raw d k"; cases "Type s")
    (simp_all add: getPrimitive_def recognized_def split: sum.split)

lemma getPrimitive_returns:
  assumes "recognized (Type s)"
  shows "\<exists>r. getPrimitive L k s d = (Return r, d)"
proof -
  from assms have "\<And>p. fst (getPrimitive L k s d) \<noteq> Panic p"
    by (rule getPrimitive_no_panic)
  then obtain r where "fst (getPrimitive L k s d) = Return r"
    by (cases "fst (getPrimitive L k s d)") auto
  then show ?thesis
    using getPrimitive_decoder [of L k s d] by (metis prod.collapse)
qed

lemma getPrimitive_panics:
  "Raw d k = Some raw \<Longrightarrow> \<not> recognized (Type s) \<Longrightarrow>
   getPrimitive L k s d = (Panic (UnknownType (Type s)), d)"
  by (simp add: getPrimitive_def recognized_def split: FieldType.splits)

lemma getNameString_rule:
  "WeakDecodeString L raw = Inr str \<Longrightarrow>
   getNameString L raw =
     (if name_rule str then (VString str, True, None) else (VNil, True, Some FormattingRules))"
  by (simp add: getNameString_def MatchString_name_pattern)

lemma getNameString_not_nil: "getNameString L raw = (v, True, None) \<Longrightarrow> v \<noteq> VNil"
  by (auto simp add: getNameString_def split: sum.splits if_splits)

lemma getDurationSecond_not_nil: "getDurationSecond L raw = (v, True, None) \<Longrightarrow> v \<noteq> VNil"
  by (auto simp add: getDurationSecond_def split: sum.splits go_value.splits)

lemma getCommaStringSlice_not_nil:
  "getCommaStringSlice L raw = (v, True, None) \<Longrightarrow> v \<noteq> VNil"
  by (auto simp add: getCommaStringSlice_def split: sum.splits)

text \<open>A value that \<^verbatim>\<open>getPrimitive\<close> returns as set and without an error is never \<^verbatim>\<open>nil\<close>.\<close>

lemma getPrimitive_not_nil:
  "getPrimitive L k s d = (Return (v, True, None), d') \<Longrightarrow> v \<noteq> VNil"
  by (cases "Raw d k"; cases "Type s")
    (auto simp add: getPrimitive_def split: sum.splits
      dest: getNameString_not_nil getDurationSecond_not_nil getCommaStringSlice_not_nil)

lemma getPrimitive_set_present:
  "getPrimitive L k s d = (Return (v, True, e), d') \<Longrightarrow> Raw d k \<noteq> None"
  by (cases "Raw d k") (simp_all add: getPrimitive_def)

text \<open>\<^verbatim>\<open>getPrimitive\<close> returns an error exactly when the coercion table says the coercion fails.\<close>

lemma getNameString_error:
  "getNameString L raw = (v, ok, e) \<Longrightarrow> e \<noteq> None \<longleftrightarrow> coercion_fails L TypeNameString raw"
  by (auto simp add: getNameString_def MatchString_name_pattern coercion_fails_def
      split: sum.splits if_splits)

lemma getDurationSecond_error:
  "getDurationSecond L raw = (v, ok, e) \<Longrightarrow>
   e \<noteq> None \<longleftrightarrow> coercion_fails L TypeDurationSecond raw"
  by (cases raw)
    (auto simp add: getDurationSecond_def coercion_fails_def numeric_seconds_def
      split: sum.splits)

lemma getCommaStringSlice_error:
  "getCommaStringSlice L raw = (v, ok, e) \<Longrightarrow>
   e \<noteq> None \<longleftrightarrow> coercion_fails L TypeCommaStringSlice raw"
  by (auto simp add: getCommaStringSlice_def coercion_fails_def split: sum.splits)

lemma getPrimitive_error:
  assumes "Raw d k = Some raw" and "recognized (Type s)"
    and "fst (getPrimitive L k s d) = Return (v, ok, e)"
  shows "e \<noteq> None \<longleftrightarrow> coercion_fails L (Type s) raw"
  using assms
  by (cases "Type s")
    (auto simp add: getPrimitive_def recognized_def coercion_fails_def [of L TypeBool]
      coercion_fails_def [of L TypeInt] coercion_fails_def [of L TypeMap]
      coercion_fails_def [of L TypeString] coercion_fails_def [of L TypeSlice]
      coercion_fails_def [of L TypeStringSlice]
      split: sum.splits
      dest: getNameString_error getDurationSecond_error getCommaStringSlice_error)

text \<open>With an error, \<^verbatim>\<open>getPrimitive\<close> returns no value.\<close>

lemma getPrimitive_error_nil:
  "getPrimitive L k s d = (Return (v, ok, Some e), d') \<Longrightarrow> v = VNil"
  by (cases "Raw d k"; cases "Type s")
    (auto simp add: getPrimitive_def getNameString_def getDurationSecond_def
      getCommaStringSlice_def MatchString_def split: sum.splits if_splits go_value.splits)

subsection \<open>Name strings\<close>

text \<open>
  C4. For a field of the name-string type whose raw value weakly decodes to a string, the
  string is accepted, and returned as set, if and only if it starts and ends with a word
  character and every interior character is a word character, a hyphen or a period;
  otherwise the call returns the formatting error. The string \<^verbatim>\<open>my-secret.v1\<close> meets
  the rule; \<^verbatim>\<open>-bad\<close>, \<^verbatim>\<open>bad!\<close> and the empty string do not.
\<close>

theorem name_string_rule:
  "(Raw d k = Some raw \<and> Type schema = TypeNameString \<and> WeakDecodeString L raw = Inr str \<longrightarrow>
      fst (getPrimitive L k schema d) =
        Return (if name_rule str then (VString str, True, None)
                else (VNil, True, Some FormattingRules)))
   \<and> name_rule ''my-secret.v1''
   \<and> \<not> name_rule ''-bad'' \<and> \<not> name_rule ''bad!'' \<and> \<not> name_rule ''''"
proof -
  have "fst (getPrimitive L k schema d) =
          Return (if name_rule str then (VString str, True, None)
                  else (VNil, True, Some FormattingRules))"
    if "Raw d k = Some raw" "Type schema = TypeNameString" "WeakDecodeString L raw = Inr str"
    using that by (simp add: getPrimitive_def getNameString_rule)
  moreover have "name_rule ''my-secret.v1''"
    by (simp add: name_rule_def word_char_def name_char_def)
  moreover have "\<not> name_rule ''-bad''" "\<not> name_rule ''bad!''" "\<not> name_rule ''''"
    by (simp_all add: name_rule_def word_char_def name_char_def)
  ultimately show ?thesis by blast
qed

theorem name_string_rule_witness:
  "fst (getPrimitive spec_libs ''name'' \<lparr>Type = TypeNameString, Default = VNil\<rparr>
         (decoder [''name'' \<mapsto> VString ''my-secret.v1'']))
     = Return (VString ''my-secret.v1'', True, None)
   \<and> fst (getPrimitive spec_libs ''name'' \<lparr>Type = TypeNameString, Default = VNil\<rparr>
         (decoder [''name'' \<mapsto> VString ''-bad'']))
     = Return (VNil, True, Some FormattingRules)
   \<and> fst (getPrimitive spec_libs ''name'' \<lparr>Type = TypeNameString, Default = VNil\<rparr>
         (decoder [''name'' \<mapsto> VString ''bad!'']))
     = Return (VNil, True, Some FormattingRules)
   \<and> fst (getPrimitive spec_libs ''name'' \<lparr>Type = TypeNameString, Default = VNil\<rparr>
         (decoder [''name'' \<mapsto> VString '''']))
     = Return (VNil, True, Some FormattingRules)"
  using
    name_string_rule [of "decoder [''name'' \<mapsto> VString ''my-secret.v1'']" "''name''"
      "VString ''my-secret.v1''" "\<lparr>Type = TypeNameString, Default = VNil\<rparr>" spec_libs
      "''my-secret.v1''"]
    name_string_rule [of "decoder [''name'' \<mapsto> VString ''-bad'']" "''name''"
      "VString ''-bad''" "\<lparr>Type = TypeNameString, Default = VNil\<rparr>" spec_libs "''-bad''"]
    name_string_rule [of "decoder [''name'' \<mapsto> VString ''bad!'']" "''name''"
      "VString ''bad!''" "\<lparr>Type = TypeNameString, Default = VNil\<rparr>" spec_libs "''bad!''"]
    name_string_rule [of "decoder [''name'' \<mapsto> VString '''']" "''name''"
      "VString ''''" "\<lparr>Type = TypeNameString, Default = VNil\<rparr>" spec_libs "''''"]
  by (simp add: decoder_def spec_libs_def)

subsection \<open>The accessors\<close>

lemma GetOkErr_unknown:
  "Schema d k = None \<Longrightarrow> GetOkErr L k d = (Return (VNil, False, Some (UnknownField k)), d)"
  by (simp add: GetOkErr_def)

lemma GetOkErr_unrecognized:
  "Schema d k = Some s \<Longrightarrow> \<not> recognized (Type s) \<Longrightarrow>
   GetOkErr L k d = (Return (VNil, False, Some (UnknownFieldType (Type s) k)), d)"
  by (simp add: GetOkErr_def)

lemma GetOkErr_recognized:
  "Schema d k = Some s \<Longrightarrow> recognized (Type s) \<Longrightarrow> GetOkErr L k d = getPrimitive L k s d"
  by (simp add: GetOkErr_def)

lemma GetOkErr_decoder: "snd (GetOkErr L k d) = d"
  by (simp add: GetOkErr_def getPrimitive_decoder split: option.split)

lemma GetOkErr_no_panic: "fst (GetOkErr L k d) \<noteq> Panic p"
  by (simp add: GetOkErr_def getPrimitive_no_panic split: option.split)

lemma GetOkErr_returns: "\<exists>v ok e. GetOkErr L k d = (Return (v, ok, e), d)"
proof -
  have "\<And>p. fst (GetOkErr L k d) \<noteq> Panic p"
    by (rule GetOkErr_no_panic)
  then obtain r where "fst (GetOkErr L k d) = Return r"
    by (cases "fst (GetOkErr L k d)") auto
  then have "GetOkErr L k d = (Return r, d)"
    using GetOkErr_decoder [of L k d] by (metis prod.collapse)
  then show ?thesis by (cases r) auto
qed

text \<open>A value that \<^verbatim>\<open>GetOkErr\<close> returns as set and without an error is never \<^verbatim>\<open>nil\<close>.\<close>

lemma GetOkErr_not_nil:
  assumes "GetOkErr L k d = (Return (v, True, None), d')"
  shows "v \<noteq> VNil \<and> Raw d k \<noteq> None"
proof (cases "Schema d k")
  case None
  with assms show ?thesis by (simp add: GetOkErr_def)
next
  case (Some s)
  with assms have "recognized (Type s)"
    by (auto simp add: GetOkErr_def split: if_splits)
  with Some assms have "getPrimitive L k s d = (Return (v, True, None), d')"
    by (simp add: GetOkErr_recognized)
  then show ?thesis
    by (auto dest: getPrimitive_not_nil getPrimitive_set_present)
qed

lemma GetOk_unknown: "Schema d k = None \<Longrightarrow> GetOk L k d = (Return (VNil, False), d)"
  by (simp add: GetOk_def)

lemma GetOk_error:
  "Schema d k = Some s \<Longrightarrow> GetOkErr L k d = (Return (v, ok, Some e), d') \<Longrightarrow>
   GetOk L k d = (Panic (ErrorReading k e), d')"
  by (simp add: GetOk_def)

lemma GetOk_value:
  assumes "Schema d k = Some s" and "GetOkErr L k d = (Return (v, ok, None), d')"
  shows "GetOk L k d = (Return (v, ok), d')"
proof (cases "ok \<and> v = VNil")
  case True
  with assms(2) show ?thesis by (auto dest: GetOkErr_not_nil)
next
  case False
  with assms show ?thesis by (auto simp add: GetOk_def)
qed

lemma GetOk_decoder: "snd (GetOk L k d) = d"
proof (cases "Schema d k")
  case None
  then show ?thesis by (simp add: GetOk_unknown)
next
  case (Some s)
  obtain v ok e where r: "GetOkErr L k d = (Return (v, ok, e), d)"
    using GetOkErr_returns by blast
  show ?thesis
  proof (cases e)
    case None
    with Some r show ?thesis by (simp add: GetOk_value)
  next
    case (Some e')
    with \<open>Schema d k = Some s\<close> r show ?thesis by (simp add: GetOk_error)
  qed
qed


lemma Get_unknown: "Schema d k = None \<Longrightarrow> Get L k d = (Panic (NotInSchema k), d)"
  by (simp add: Get_def)



lemma Get_decoder: "snd (Get L k d) = d"
proof (cases "Schema d k")
  case None
  then show ?thesis by (simp add: Get_unknown)
next
  case (Some s)
  have "snd (GetOk L k d) = d" by (rule GetOk_decoder)
  with Some show ?thesis
    by (cases "GetOk L k d") (auto simp add: Get_def split: outcome.splits)
qed

lemma GetDefaultOrZero_decoder: "snd (GetDefaultOrZero k d) = d"
  by (simp add: GetDefaultOrZero_def split: option.split)

lemma pair_fst: "snd c = d \<Longrightarrow> fst c = r \<Longrightarrow> c = (r, d)"
  by auto

text \<open>
  C2, as the claim states it, fails: a key that has a schema entry and is absent from the
  raw record does not always give \<^verbatim>\<open>(nil, false, nil)\<close>. When the type of the entry
  is outside the recognized set, \<^verbatim>\<open>GetOkErr\<close> returns the unknown-field-type error
  before it looks at the raw record.
\<close>

theorem GetOkErr_absent_unrecognized_counterexample:
  "Schema (decoder Map.empty) ''odd'' = Some \<lparr>Type = TypeUnrecognized 0, Default = VNil\<rparr>
   \<and> Raw (decoder Map.empty) ''odd'' = None
   \<and> fst (GetOkErr spec_libs ''odd'' (decoder Map.empty))
       = Return (VNil, False, Some (UnknownFieldType (TypeUnrecognized 0) ''odd''))"
  by (simp add: decoder_def example_schema_def GetOkErr_def recognized_def)

text \<open>
  C2, amended. For every key \<^verbatim>\<open>GetOkErr\<close> returns, it never aborts. A key with no
  schema entry gives an error and no value. A schema type outside the recognized set
  gives an error and no value, whether or not the key is in the raw record. For a schema
  entry of a recognized type the result is that of \<^verbatim>\<open>getPrimitive\<close>: a present raw
  value whose coercion fails gives an error and no value, one whose coercion does not fail
  gives no error, and a key absent from the raw record gives \<^verbatim>\<open>(nil, false, nil)\<close>.
\<close>

theorem GetOkErr_amended:
  "(\<exists>r. fst (GetOkErr L k d) = Return r)
   \<and> (Schema d k = None \<longrightarrow>
        fst (GetOkErr L k d) = Return (VNil, False, Some (UnknownField k)))
   \<and> (\<forall>s. Schema d k = Some s \<and> \<not> recognized (Type s) \<longrightarrow>
        fst (GetOkErr L k d) = Return (VNil, False, Some (UnknownFieldType (Type s) k)))
   \<and> (\<forall>s. Schema d k = Some s \<and> recognized (Type s) \<longrightarrow>
        fst (GetOkErr L k d) = fst (getPrimitive L k s d))
   \<and> (\<forall>s raw. Schema d k = Some s \<and> recognized (Type s) \<and> Raw d k = Some raw
          \<and> coercion_fails L (Type s) raw \<longrightarrow>
        (\<exists>ok e. fst (GetOkErr L k d) = Return (VNil, ok, Some e)))
   \<and> (\<forall>s raw. Schema d k = Some s \<and> recognized (Type s) \<and> Raw d k = Some raw
          \<and> \<not> coercion_fails L (Type s) raw \<longrightarrow>
        (\<exists>v ok. fst (GetOkErr L k d) = Return (v, ok, None)))
   \<and> (\<forall>s. Schema d k = Some s \<and> recognized (Type s) \<and> Raw d k = None \<longrightarrow>
        fst (GetOkErr L k d) = Return (VNil, False, None))"
proof -
  have returns: "\<exists>r. fst (GetOkErr L k d) = Return r"
    using GetOkErr_returns [of L k d] by auto
  have unknown: "fst (GetOkErr L k d) = Return (VNil, False, Some (UnknownField k))"
    if "Schema d k = None"
    using that by (simp add: GetOkErr_unknown)
  have unrecognized:
    "fst (GetOkErr L k d) = Return (VNil, False, Some (UnknownFieldType (Type s) k))"
    if "Schema d k = Some s" "\<not> recognized (Type s)" for s
    using that by (simp add: GetOkErr_unrecognized)
  have delegates: "fst (GetOkErr L k d) = fst (getPrimitive L k s d)"
    if "Schema d k = Some s" "recognized (Type s)" for s
    using that by (simp add: GetOkErr_recognized)
  have present:
    "(coercion_fails L (Type s) raw \<longrightarrow>
        (\<exists>ok e. fst (GetOkErr L k d) = Return (VNil, ok, Some e)))
     \<and> (\<not> coercion_fails L (Type s) raw \<longrightarrow>
        (\<exists>v ok. fst (GetOkErr L k d) = Return (v, ok, None)))"
    if s: "Schema d k = Some s" "recognized (Type s)" and raw: "Raw d k = Some raw" for s raw
  proof -
    obtain v ok e where r: "getPrimitive L k s d = (Return (v, ok, e), d)"
      using getPrimitive_returns [OF s(2), of L k d] by (metis prod_cases3)
    then have iff: "e \<noteq> None \<longleftrightarrow> coercion_fails L (Type s) raw"
      using getPrimitive_error [OF raw s(2), of L v ok e] by simp
    have eq: "fst (GetOkErr L k d) = Return (v, ok, e)"
      using s r by (simp add: GetOkErr_recognized)
    show ?thesis
    proof (cases e)
      case None
      with iff eq show ?thesis by auto
    next
      case (Some e')
      with r have "v = VNil" by (auto dest: getPrimitive_error_nil)
      with Some iff eq show ?thesis by auto
    qed
  qed
  have absent: "fst (GetOkErr L k d) = Return (VNil, False, None)"
    if "Schema d k = Some s" "recognized (Type s)" "Raw d k = None" for s
    using that by (simp add: GetOkErr_recognized getPrimitive_absent)
  show ?thesis
  proof (intro conjI allI impI, goal_cases)
    case 1
    show ?case by (rule returns)
  next
    case 2
    then show ?case by (rule unknown)
  next
    case (3 s)
    then show ?case using unrecognized [of s] by blast
  next
    case (4 s)
    then show ?case using delegates [of s] by blast
  next
    case (5 s raw)
    then show ?case using present [of s raw] by blast
  next
    case (6 s raw)
    then show ?case using present [of s raw] by blast
  next
    case (7 s)
    then show ?case using absent [of s] by blast
  qed
qed

theorem GetOkErr_amended_witness:
  "fst (GetOkErr spec_libs ''missing'' (decoder Map.empty))
     = Return (VNil, False, Some (UnknownField ''missing''))
   \<and> fst (GetOkErr spec_libs ''odd'' (decoder Map.empty))
     = Return (VNil, False, Some (UnknownFieldType (TypeUnrecognized 0) ''odd''))
   \<and> (\<exists>ok e. fst (GetOkErr spec_libs ''ttl'' (decoder [''ttl'' \<mapsto> VBool True]))
         = Return (VNil, ok, Some e))
   \<and> (\<exists>v ok. fst (GetOkErr spec_libs ''ttl'' (decoder [''ttl'' \<mapsto> VInt 90]))
         = Return (v, ok, None))
   \<and> fst (GetOkErr spec_libs ''ttl'' (decoder Map.empty)) = Return (VNil, False, None)"
proof -
  let ?ttl = "\<lparr>Type = TypeDurationSecond, Default = VInt 30\<rparr>"
  let ?odd = "\<lparr>Type = TypeUnrecognized 0, Default = VNil\<rparr>"
  let ?d = "decoder Map.empty"
  let ?b = "decoder [''ttl'' \<mapsto> VBool True]"
  let ?g = "decoder [''ttl'' \<mapsto> VInt 90]"
  have missing: "Schema ?d ''missing'' = None"
    by (simp add: decoder_def example_schema_def)
  have odd: "Schema ?d ''odd'' = Some ?odd \<and> \<not> recognized (Type ?odd)"
    by (simp add: decoder_def example_schema_def recognized_def)
  have bad: "Schema ?b ''ttl'' = Some ?ttl \<and> recognized (Type ?ttl)
      \<and> Raw ?b ''ttl'' = Some (VBool True) \<and> coercion_fails spec_libs (Type ?ttl) (VBool True)"
    by (simp add: decoder_def example_schema_def recognized_def coercion_fails_def
        numeric_seconds_def)
  have good: "Schema ?g ''ttl'' = Some ?ttl \<and> recognized (Type ?ttl)
      \<and> Raw ?g ''ttl'' = Some (VInt 90) \<and> \<not> coercion_fails spec_libs (Type ?ttl) (VInt 90)"
    by (simp add: decoder_def example_schema_def recognized_def coercion_fails_def
        numeric_seconds_def)
  have absent: "Schema ?d ''ttl'' = Some ?ttl \<and> recognized (Type ?ttl) \<and> Raw ?d ''ttl'' = None"
    by (simp add: decoder_def example_schema_def recognized_def)
  note thm_d = GetOkErr_amended [of spec_libs _ ?d]
  have "fst (GetOkErr spec_libs ''missing'' ?d)
      = Return (VNil, False, Some (UnknownField ''missing''))"
    using thm_d [of "''missing''", THEN conjunct2, THEN conjunct1, rule_format, OF missing] .
  moreover have "fst (GetOkErr spec_libs ''odd'' ?d)
      = Return (VNil, False, Some (UnknownFieldType (TypeUnrecognized 0) ''odd''))"
    using thm_d [of "''odd''", THEN conjunct2, THEN conjunct2, THEN conjunct1, rule_format,
        OF odd] by simp
  moreover have "\<exists>ok e. fst (GetOkErr spec_libs ''ttl'' ?b) = Return (VNil, ok, Some e)"
    using GetOkErr_amended [of spec_libs "''ttl''" ?b, THEN conjunct2, THEN conjunct2,
        THEN conjunct2, THEN conjunct2, THEN conjunct1, rule_format, OF bad] .
  moreover have "\<exists>v ok. fst (GetOkErr spec_libs ''ttl'' ?g) = Return (v, ok, None)"
    using GetOkErr_amended [of spec_libs "''ttl''" ?g, THEN conjunct2, THEN conjunct2,
        THEN conjunct2, THEN conjunct2, THEN conjunct2, THEN conjunct1, rule_format,
        OF good] .
  moreover have "fst (GetOkErr spec_libs ''ttl'' ?d) = Return (VNil, False, None)"
    using thm_d [of "''ttl''", THEN conjunct2, THEN conjunct2, THEN conjunct2,
        THEN conjunct2, THEN conjunct2, THEN conjunct2, rule_format, OF absent] .
  ultimately show ?thesis by simp
qed

subsection \<open>Validate\<close>

lemma Validate_skip:
  "Schema d field = None \<Longrightarrow> Validate L ((field, v) # rest) d = Validate L rest d"
  by simp

lemma Validate_unrecognized:
  "Schema d field = Some s \<Longrightarrow> \<not> recognized (Type s) \<Longrightarrow>
   Validate L ((field, v) # rest) d = (Return (Some (UnknownFieldType (Type s) field)), d)"
  by simp

lemma Validate_error:
  "Schema d field = Some s \<Longrightarrow> recognized (Type s) \<Longrightarrow>
   getPrimitive L field s d = (Return (x, ok, Some e), d') \<Longrightarrow>
   Validate L ((field, v) # rest) d = (Return (Some (ErrorConverting v field e)), d')"
  by simp

lemma Validate_next:
  "Schema d field = Some s \<Longrightarrow> recognized (Type s) \<Longrightarrow>
   getPrimitive L field s d = (Return (x, ok, None), d') \<Longrightarrow>
   Validate L ((field, v) # rest) d = Validate L rest d'"
  by simp

text \<open>\<open>Validate\<close> returns, and leaves the decoder as it found it.\<close>

lemma Validate_returns: "\<exists>e. Validate L kvs d = (Return e, d)"
proof (induction kvs)
  case Nil
  show ?case by simp
next
  case (Cons kv kvs)
  obtain field v where kv: "kv = (field, v)" by (cases kv)
  show ?case
  proof (cases "Schema d field")
    case None
    with Cons kv show ?thesis by (simp add: Validate_skip del: Validate.simps)
  next
    case (Some s)
    show ?thesis
    proof (cases "recognized (Type s)")
      case False
      with Some kv show ?thesis by (simp add: Validate_unrecognized del: Validate.simps)
    next
      case True
      then obtain x ok e where r: "getPrimitive L field s d = (Return (x, ok, e), d)"
        using getPrimitive_returns [of s L field d] by (metis prod_cases3)
      show ?thesis
      proof (cases e)
        case None
        with Some True r Cons kv show ?thesis
          by (simp add: Validate_next [OF Some True] del: Validate.simps)
      next
        case (Some e')
        with \<open>Schema d field = Some s\<close> True r kv show ?thesis
          by (simp add: Validate_error [OF \<open>Schema d field = Some s\<close> True]
              del: Validate.simps)
      qed
    qed
  qed
qed

lemma Validate_decoder: "snd (Validate L kvs d) = d"
  using Validate_returns [of L kvs d] by auto

lemma Validate_no_panic: "fst (Validate L kvs d) \<noteq> Panic p"
  using Validate_returns [of L kvs d] by auto

subsection \<open>The unknown-type abort\<close>

text \<open>
  C10. The abort of the default case of \<^verbatim>\<open>getPrimitive\<close> cannot be reached through
  the public interface. \<^verbatim>\<open>GetOkErr\<close> and \<^verbatim>\<open>Validate\<close>, the two callers, never
  abort, and return the unknown-field-type error themselves for a schema type outside the
  nine recognized kinds; \<^verbatim>\<open>GetOk\<close>, \<^verbatim>\<open>Get\<close> and \<^verbatim>\<open>GetDefaultOrZero\<close> never abort
  with that message. The branch itself is live: \<^verbatim>\<open>getPrimitive\<close>, called with such a
  type on a present key, aborts.
\<close>

theorem unknown_type_abort_unreachable:
  "fst (GetOkErr L k d) \<noteq> Panic p
   \<and> fst (Validate L kvs d) \<noteq> Panic p
   \<and> fst (GetOk L k d) \<noteq> Panic (UnknownType t)
   \<and> fst (Get L k d) \<noteq> Panic (UnknownType t)
   \<and> fst (GetDefaultOrZero k d) \<noteq> Panic (UnknownType t)
   \<and> (\<forall>s. Schema d k = Some s \<and> \<not> recognized (Type s) \<longrightarrow>
        fst (GetOkErr L k d) = Return (VNil, False, Some (UnknownFieldType (Type s) k)))
   \<and> (\<forall>s v rest. Schema d k = Some s \<and> \<not> recognized (Type s) \<longrightarrow>
        fst (Validate L ((k, v) # rest) d) = Return (Some (UnknownFieldType (Type s) k)))
   \<and> (\<forall>s raw. Raw d k = Some raw \<and> \<not> recognized (Type s) \<longrightarrow>
        fst (getPrimitive L k s d) = Panic (UnknownType (Type s)))"
proof -
  have zero: "DefaultOrZero s \<noteq> Panic (UnknownType t)" for s
    by (simp add: DefaultOrZero_def Zero_value_def split: FieldType.split)
  have getok: "fst (GetOk L k d) \<noteq> Panic (UnknownType t)"
  proof (cases "Schema d k")
    case None
    then show ?thesis by (simp add: GetOk_unknown)
  next
    case (Some s)
    obtain v ok e where r: "GetOkErr L k d = (Return (v, ok, e), d)"
      using GetOkErr_returns by blast
    with Some show ?thesis
      by (cases e) (simp_all add: GetOk_value GetOk_error)
  qed
  have get: "fst (Get L k d) \<noteq> Panic (UnknownType t)"
  proof (cases "Schema d k")
    case None
    then show ?thesis by (simp add: Get_unknown)
  next
    case (Some s)
    with getok zero [of s] show ?thesis
      by (cases "GetOk L k d") (auto simp add: Get_def split: outcome.splits)
  qed
  have getdefault: "fst (GetDefaultOrZero k d) \<noteq> Panic (UnknownType t)"
    using zero by (simp add: GetDefaultOrZero_def split: option.split)
  from getok get getdefault show ?thesis
    by (simp add: GetOkErr_no_panic Validate_no_panic GetOkErr_unrecognized
        Validate_unrecognized getPrimitive_panics del: Validate.simps)
qed

theorem unknown_type_abort_unreachable_witness:
  "fst (GetOkErr spec_libs ''odd'' (decoder [''odd'' \<mapsto> VInt 1]))
     = Return (VNil, False, Some (UnknownFieldType (TypeUnrecognized 0) ''odd''))
   \<and> fst (Validate spec_libs [(''odd'', VInt 1)] (decoder [''odd'' \<mapsto> VInt 1]))
     = Return (Some (UnknownFieldType (TypeUnrecognized 0) ''odd''))
   \<and> fst (getPrimitive spec_libs ''odd'' \<lparr>Type = TypeUnrecognized 0, Default = VNil\<rparr>
         (decoder [''odd'' \<mapsto> VInt 1]))
     = Panic (UnknownType (TypeUnrecognized 0))"
  using unknown_type_abort_unreachable
    [of spec_libs "''odd''" "decoder [''odd'' \<mapsto> VInt 1]" _ "[]" _]
  by (simp add: decoder_def example_schema_def recognized_def del: Validate.simps)

subsection \<open>GetOk and Get\<close>







subsection \<open>The decoder is read, never written\<close>

lemma tag_decoder: "snd (tag f c) = snd c"
  by (cases c) (simp add: tag_def split: outcome.split)

lemma exec_decoder: "snd (exec L o' d) = d"
  by (cases o')
    (simp_all add: exec_def tag_decoder Validate_decoder Get_decoder
      GetDefaultOrZero_decoder GetOk_decoder GetOkErr_decoder)

lemma run_decoder: "run L os d = d"
proof (induction os arbitrary: d)
  case Nil
  show ?case by simp
next
  case (Cons o' os)
  have "snd (exec L o' d) = d" by (rule exec_decoder)
  with Cons show ?case
    by (cases "exec L o' d") (auto split: outcome.split)
qed

text \<open>
  C8. For every key and each of the accessors \<^verbatim>\<open>Get\<close>, \<^verbatim>\<open>GetOk\<close>,
  \<^verbatim>\<open>GetOkErr\<close> and \<^verbatim>\<open>GetDefaultOrZero\<close>, a second call, made on the decoder as
  the first call left it, has the result of the first call.
\<close>

theorem accessors_repeatable:
  "fst (Get L k (snd (Get L k d))) = fst (Get L k d)
   \<and> fst (GetOk L k (snd (GetOk L k d))) = fst (GetOk L k d)
   \<and> fst (GetOkErr L k (snd (GetOkErr L k d))) = fst (GetOkErr L k d)
   \<and> fst (GetDefaultOrZero k (snd (GetDefaultOrZero k d))) = fst (GetDefaultOrZero k d)"
  by (simp add: Get_decoder GetOk_decoder GetOkErr_decoder GetDefaultOrZero_decoder)

text \<open>
  C9. No operation of the decoder changes the raw record or the schema map: each of
  \<^verbatim>\<open>Validate\<close>, \<^verbatim>\<open>Get\<close>, \<^verbatim>\<open>GetOk\<close>, \<^verbatim>\<open>GetOkErr\<close> and \<^verbatim>\<open>GetDefaultOrZero\<close>
  leaves the decoder as it found it, whether it returns or aborts, and so does any
  sequence of them.
\<close>

theorem decoder_never_mutated:
  "Raw (snd (exec L o' d)) = Raw d \<and> Schema (snd (exec L o' d)) = Schema d
   \<and> Raw (run L os d) = Raw d \<and> Schema (run L os d) = Schema d
   \<and> snd (Validate L kvs d) = d \<and> snd (Get L k d) = d \<and> snd (GetOk L k d) = d
   \<and> snd (GetOkErr L k d) = d \<and> snd (GetDefaultOrZero k d) = d"
  by (simp add: exec_decoder run_decoder Validate_decoder Get_decoder GetOk_decoder
      GetOkErr_decoder GetDefaultOrZero_decoder)

subsection \<open>Comma-delimited strings\<close>

text \<open>
  C6. For a field of the comma-string-slice type whose raw value is a single string, with
  a decoder that splits the string at its commas and a normalizer that trims each element,
  the result is the sequence of the trimmed parts, in order, returned as set. The string
  \<^verbatim>\<open>a, b ,c\<close> gives exactly the three elements \<^verbatim>\<open>a\<close>, \<^verbatim>\<open>b\<close>, \<^verbatim>\<open>c\<close>.
\<close>

theorem comma_string_slice_split:
  "(NewDecoder L = Inr decode \<and> decode (VString str) = Inr (split_commas str)
      \<and> TrimStrings L = map trim_space
      \<and> Raw d k = Some (VString str) \<and> Type schema = TypeCommaStringSlice \<longrightarrow>
      fst (getPrimitive L k schema d) =
        Return (VStringSlice (map trim_space (split_commas str)), True, None))
   \<and> map trim_space (split_commas ''a, b ,c'') = [''a'', ''b'', ''c'']"
proof -
  have "map trim_space (split_commas ''a, b ,c'') = [''a'', ''b'', ''c'']"
    by (simp add: trim_space_def is_space_def)
  then show ?thesis
    by (simp add: getPrimitive_def getCommaStringSlice_def)
qed

theorem comma_string_slice_split_witness:
  "fst (getPrimitive spec_libs ''tags'' \<lparr>Type = TypeCommaStringSlice, Default = VNil\<rparr>
         (decoder [''tags'' \<mapsto> VString ''a, b ,c'']))
     = Return (VStringSlice [''a'', ''b'', ''c''], True, None)"
  using comma_string_slice_split [of spec_libs comma_decode "''a, b ,c''"
      "decoder [''tags'' \<mapsto> VString ''a, b ,c'']" "''tags''"
      "\<lparr>Type = TypeCommaStringSlice, Default = VNil\<rparr>"]
  by (simp add: spec_libs_def comma_decode_def decoder_def)

subsection \<open>Durations in seconds\<close>

lemma float_to_int_in_range:
  "- (2 ^ 63) \<le> truncate_rat r \<Longrightarrow> truncate_rat r < 2 ^ 63 \<Longrightarrow>
   float_to_int L (Finite r) = word_of_int (truncate_rat r)"
  by (simp add: float_to_int_def)

text \<open>
  C3, as the claim states it, fails: a raw value of an integer kind that the type switch
  does not list, here a 16-bit integer, is not converted to a count of seconds but
  rejected with the invalid-input error.
\<close>

theorem duration_second_int16_counterexample:
  "fst (getPrimitive spec_libs ''ttl'' \<lparr>Type = TypeDurationSecond, Default = VInt 30\<rparr>
         (decoder [''ttl'' \<mapsto> VInt16 5]))
     = Return (VNil, False, Some (InvalidInput (VInt16 5)))"
  by (simp add: getPrimitive_def getDurationSecond_def decoder_def)

text \<open>
  C3, amended. For a present raw value of a duration-second field: \<^verbatim>\<open>nil\<close> is reported as
  not present, without an error; a value of one of the kinds \<^verbatim>\<open>int\<close>, \<^verbatim>\<open>int32\<close>,
  \<^verbatim>\<open>int64\<close>, \<^verbatim>\<open>uint\<close>, \<^verbatim>\<open>uint32\<close>, \<^verbatim>\<open>uint64\<close>, \<^verbatim>\<open>float32\<close> and
  \<^verbatim>\<open>float64\<close> is converted to an \<^verbatim>\<open>int\<close>, a float that fits losing its fraction
  towards zero; a string goes to the duration parser, whose error is returned, and whose
  duration is converted from its seconds; a JSON number is parsed as an integer; every other
  value, the kinds \<^verbatim>\<open>int8\<close>, \<^verbatim>\<open>int16\<close>, \<^verbatim>\<open>uint8\<close> and \<^verbatim>\<open>uint16\<close> among them, fails
  with the invalid-input error and is reported as not present.
\<close>

theorem duration_second_amended:
  "(Raw d k = Some raw \<and> Type schema = TypeDurationSecond \<longrightarrow>
      (raw = VNil \<longrightarrow> fst (getPrimitive L k schema d) = Return (VNil, False, None))
      \<and> (\<forall>n. numeric_seconds L raw = Some n \<longrightarrow>
           fst (getPrimitive L k schema d) = Return (VInt n, True, None))
      \<and> (\<forall>inp dur. raw = VString inp \<and> ParseDurationSecond L inp = Inr dur \<longrightarrow>
           fst (getPrimitive L k schema d)
             = Return (VInt (float_to_int L (Seconds L dur)), True, None))
      \<and> (\<forall>inp e. raw = VString inp \<and> ParseDurationSecond L inp = Inl e \<longrightarrow>
           fst (getPrimitive L k schema d) = Return (VNil, True, Some e))
      \<and> (\<forall>inp n. raw = VJsonNumber inp \<and> JsonNumberInt64 L inp = Inr n \<longrightarrow>
           fst (getPrimitive L k schema d) = Return (VInt n, True, None))
      \<and> (\<forall>inp e. raw = VJsonNumber inp \<and> JsonNumberInt64 L inp = Inl e \<longrightarrow>
           fst (getPrimitive L k schema d) = Return (VNil, True, Some e))
      \<and> (raw \<noteq> VNil \<and> numeric_seconds L raw = None
            \<and> (\<forall>inp. raw \<noteq> VString inp) \<and> (\<forall>inp. raw \<noteq> VJsonNumber inp) \<longrightarrow>
           fst (getPrimitive L k schema d) = Return (VNil, False, Some (InvalidInput raw))))
   \<and> numeric_seconds L (VInt i) = Some i
   \<and> numeric_seconds L (VInt32 i32) = Some (scast i32)
   \<and> numeric_seconds L (VInt64 i64) = Some i64
   \<and> numeric_seconds L (VUint u) = Some u
   \<and> numeric_seconds L (VUint32 u32) = Some (ucast u32)
   \<and> numeric_seconds L (VUint64 u64) = Some u64
   \<and> numeric_seconds L (VFloat32 f) = Some (float_to_int L f)
   \<and> numeric_seconds L (VFloat64 f) = Some (float_to_int L f)
   \<and> (- (2 ^ 63) \<le> truncate_rat r \<and> truncate_rat r < 2 ^ 63 \<longrightarrow>
        float_to_int L (Finite r) = word_of_int (truncate_rat r))
   \<and> numeric_seconds L (VInt8 i8) = None
   \<and> numeric_seconds L (VInt16 i16) = None
   \<and> numeric_seconds L (VUint8 u8) = None
   \<and> numeric_seconds L (VUint16 u16) = None"
proof -
  have "fst (getPrimitive L k schema d) = Return (getDurationSecond L raw)"
    if "Raw d k = Some raw" "Type schema = TypeDurationSecond"
    using that by (simp add: getPrimitive_def)
  moreover have "getDurationSecond L VNil = (VNil, False, None)"
    by (simp add: getDurationSecond_def)
  moreover have "getDurationSecond L raw = (VInt n, True, None)"
    if "numeric_seconds L raw = Some n" for n
    using that by (cases raw) (simp_all add: getDurationSecond_def numeric_seconds_def)
  moreover have "getDurationSecond L (VString inp)
      = (case ParseDurationSecond L inp of
           Inl e \<Rightarrow> (VNil, True, Some e)
         | Inr dur \<Rightarrow> (VInt (float_to_int L (Seconds L dur)), True, None))" for inp
    by (simp add: getDurationSecond_def)
  moreover have "getDurationSecond L (VJsonNumber inp)
      = (case JsonNumberInt64 L inp of
           Inl e \<Rightarrow> (VNil, True, Some e)
         | Inr n \<Rightarrow> (VInt n, True, None))" for inp
    by (simp add: getDurationSecond_def)
  moreover have "getDurationSecond L raw = (VNil, False, Some (InvalidInput raw))"
    if "raw \<noteq> VNil" "numeric_seconds L raw = None" "\<forall>inp. raw \<noteq> VString inp"
      "\<forall>inp. raw \<noteq> VJsonNumber inp"
    using that by (cases raw) (simp_all add: getDurationSecond_def numeric_seconds_def)
  ultimately show ?thesis
    by (simp add: numeric_seconds_def float_to_int_in_range)
qed

theorem duration_second_amended_witness:
  "fst (getPrimitive spec_libs ''ttl'' \<lparr>Type = TypeDurationSecond, Default = VInt 30\<rparr>
         (decoder [''ttl'' \<mapsto> VString ''2m''])) = Return (VInt 120, True, None)
   \<and> fst (getPrimitive spec_libs ''ttl'' \<lparr>Type = TypeDurationSecond, Default = VInt 30\<rparr>
         (decoder [''ttl'' \<mapsto> VInt 90])) = Return (VInt 90, True, None)
   \<and> fst (getPrimitive spec_libs ''ttl'' \<lparr>Type = TypeDurationSecond, Default = VInt 30\<rparr>
         (decoder [''ttl'' \<mapsto> VString ''nonsense'']))
       = Return (VNil, True, Some (LibraryError ''invalid duration''))
   \<and> fst (getPrimitive spec_libs ''ttl'' \<lparr>Type = TypeDurationSecond, Default = VInt 30\<rparr>
         (decoder [''ttl'' \<mapsto> VFloat64 (Finite (5 / 2))])) = Return (VInt 2, True, None)
   \<and> fst (getPrimitive spec_libs ''ttl'' \<lparr>Type = TypeDurationSecond, Default = VInt 30\<rparr>
         (decoder [''ttl'' \<mapsto> VNil])) = Return (VNil, False, None)
   \<and> fst (getPrimitive spec_libs ''ttl'' \<lparr>Type = TypeDurationSecond, Default = VInt 30\<rparr>
         (decoder [''ttl'' \<mapsto> VBool True]))
       = Return (VNil, False, Some (InvalidInput (VBool True)))"
proof -
  let ?s = "\<lparr>Type = TypeDurationSecond, Default = VInt 30\<rparr>"
  have raw: "Raw (decoder [''ttl'' \<mapsto> v]) ''ttl'' = Some v" for v
    by (simp add: decoder_def)
  have ty: "Type ?s = TypeDurationSecond" by simp
  have parse: "ParseDurationSecond spec_libs ''2m'' = Inr 120000000000"
    by (simp add: spec_libs_def parse_duration_def unit_seconds_def digit_value_def)
  have secs: "float_to_int spec_libs (Seconds spec_libs 120000000000) = 120"
    by (simp add: spec_libs_def duration_seconds_def float_to_int_def truncate_rat_def)
  have nonsense:
    "ParseDurationSecond spec_libs ''nonsense'' = Inl (LibraryError ''invalid duration'')"
    by (simp add: spec_libs_def parse_duration_def unit_seconds_def digit_value_def)
  have "\<lfloor>5 / 2 :: rat\<rfloor> = 2"
    by linarith
  then have "truncate_rat (5 / 2) = 2"
    by (simp add: truncate_rat_def)
  then have half: "float_to_int spec_libs (Finite (5 / 2)) = 2"
    by (simp add: float_to_int_def)
  have "fst (getPrimitive spec_libs ''ttl'' ?s (decoder [''ttl'' \<mapsto> VString ''2m'']))
          = Return (VInt 120, True, None)"
    using duration_second_amended [of "decoder [''ttl'' \<mapsto> VString ''2m'']" "''ttl''"
        "VString ''2m''" ?s spec_libs] raw ty parse secs
    by simp
  moreover have "fst (getPrimitive spec_libs ''ttl'' ?s (decoder [''ttl'' \<mapsto> VInt 90]))
          = Return (VInt 90, True, None)"
    using duration_second_amended [of "decoder [''ttl'' \<mapsto> VInt 90]" "''ttl''"
        "VInt 90" ?s spec_libs] raw ty
    by (simp add: numeric_seconds_def)
  moreover have
    "fst (getPrimitive spec_libs ''ttl'' ?s (decoder [''ttl'' \<mapsto> VString ''nonsense'']))
          = Return (VNil, True, Some (LibraryError ''invalid duration''))"
    using duration_second_amended [of "decoder [''ttl'' \<mapsto> VString ''nonsense'']" "''ttl''"
        "VString ''nonsense''" ?s spec_libs] raw ty nonsense
    by simp
  moreover have
    "fst (getPrimitive spec_libs ''ttl'' ?s (decoder [''ttl'' \<mapsto> VFloat64 (Finite (5 / 2))]))
          = Return (VInt 2, True, None)"
    using duration_second_amended [of "decoder [''ttl'' \<mapsto> VFloat64 (Finite (5 / 2))]"
        "''ttl''" "VFloat64 (Finite (5 / 2))" ?s spec_libs] raw ty half
    by (simp add: numeric_seconds_def)
  moreover have "fst (getPrimitive spec_libs ''ttl'' ?s (decoder [''ttl'' \<mapsto> VNil]))
          = Return (VNil, False, None)"
    using duration_second_amended [of "decoder [''ttl'' \<mapsto> VNil]" "''ttl''" VNil ?s
        spec_libs] raw ty
    by simp
  moreover have "fst (getPrimitive spec_libs ''ttl'' ?s (decoder [''ttl'' \<mapsto> VBool True]))
          = Return (VNil, False, Some (InvalidInput (VBool True)))"
    using duration_second_amended [of "decoder [''ttl'' \<mapsto> VBool True]" "''ttl''"
        "VBool True" ?s spec_libs] raw ty
    by (simp add: numeric_seconds_def)
  ultimately show ?thesis by simp
qed

subsection \<open>What Validate checks\<close>

lemma Validate_pass:
  assumes raw: "Raw d field = Some v"
    and ok: "\<forall>s. Schema d field = Some s \<longrightarrow> coerces L s v"
  shows "Validate L ((field, v) # rest) d = Validate L rest d"
proof (cases "Schema d field")
  case None
  then show ?thesis by (rule Validate_skip)
next
  case (Some s)
  with ok have rec: "recognized (Type s)" and fine: "\<not> coercion_fails L (Type s) v"
    by (simp_all add: coerces_def)
  obtain x b e where r: "getPrimitive L field s d = (Return (x, b, e), d)"
    using getPrimitive_returns [OF rec, of L field d] by (metis prod_cases3)
  with fine have "e = None"
    using getPrimitive_error [OF raw rec, of L x b e] by simp
  with r show ?thesis
    using Validate_next [OF Some rec, of L x b d v rest] by simp
qed

lemma Validate_fail_coercion:
  assumes raw: "Raw d field = Some v" and s: "Schema d field = Some s"
    and rec: "recognized (Type s)" and bad: "coercion_fails L (Type s) v"
  shows "\<exists>x b e. getPrimitive L field s d = (Return (x, b, Some e), d)
    \<and> Validate L ((field, v) # rest) d = (Return (Some (ErrorConverting v field e)), d)"
proof -
  obtain x b e where r: "getPrimitive L field s d = (Return (x, b, e), d)"
    using getPrimitive_returns [OF rec, of L field d] by (metis prod_cases3)
  with bad obtain e' where "e = Some e'"
    using getPrimitive_error [OF raw rec, of L x b e] by auto
  with r have r': "getPrimitive L field s d = (Return (x, b, Some e'), d)" by simp
  from Validate_error [OF s rec this, of v rest] r' show ?thesis by blast
qed

lemma Validate_fail:
  assumes raw: "Raw d field = Some v" and s: "Schema d field = Some s"
    and bad: "\<not> coerces L s v"
  shows "\<exists>e. Validate L ((field, v) # rest) d = (Return (Some e), d)"
proof (cases "recognized (Type s)")
  case False
  with s show ?thesis by (simp add: Validate_unrecognized del: Validate.simps)
next
  case True
  with bad have "coercion_fails L (Type s) v" by (simp add: coerces_def)
  from Validate_fail_coercion [OF raw s True this] show ?thesis by blast
qed

text \<open>Entries that pass are behind the loop: the outcome is that of the rest of the visit.\<close>

lemma Validate_prefix:
  "\<forall>(k, v) \<in> set pre. Raw d k = Some v \<and> (\<forall>s. Schema d k = Some s \<longrightarrow> coerces L s v) \<Longrightarrow>
   Validate L (pre @ rest) d = Validate L rest d"
proof (induction pre)
  case Nil
  show ?case by simp
next
  case (Cons kv pre)
  obtain k v where kv: "kv = (k, v)" by (cases kv)
  with Cons.prems have "Raw d k = Some v" "\<forall>s. Schema d k = Some s \<longrightarrow> coerces L s v"
    by simp_all
  then have "Validate L ((k, v) # pre @ rest) d = Validate L (pre @ rest) d"
    by (rule Validate_pass)
  with Cons kv show ?case by (simp del: Validate.simps)
qed

lemma Validate_success:
  "\<forall>(k, v) \<in> set kvs. Raw d k = Some v \<Longrightarrow>
   fst (Validate L kvs d) = Return None \<longleftrightarrow>
     (\<forall>(k, v) \<in> set kvs. \<forall>s. Schema d k = Some s \<longrightarrow> coerces L s v)"
proof (induction kvs)
  case Nil
  show ?case by simp
next
  case (Cons kv kvs)
  obtain k v where kv: "kv = (k, v)" by (cases kv)
  with Cons.prems have raw: "Raw d k = Some v" by simp
  from Cons have IH: "fst (Validate L kvs d) = Return None \<longleftrightarrow>
     (\<forall>(k, v) \<in> set kvs. \<forall>s. Schema d k = Some s \<longrightarrow> coerces L s v)"
    by simp
  show ?case
  proof (cases "\<forall>s. Schema d k = Some s \<longrightarrow> coerces L s v")
    case True
    with raw have "Validate L ((k, v) # kvs) d = Validate L kvs d"
      by (rule Validate_pass)
    with True IH kv show ?thesis by (simp del: Validate.simps)
  next
    case False
    then obtain s where s: "Schema d k = Some s" "\<not> coerces L s v" by blast
    from Validate_fail [OF raw s] obtain e
      where "Validate L ((k, v) # kvs) d = (Return (Some e), d)" by blast
    with False kv show ?thesis by (auto simp del: Validate.simps)
  qed
qed

lemma ranges_set: "ranges kvs d \<Longrightarrow> (k, v) \<in> set kvs \<longleftrightarrow> Raw d k = Some v"
  using map_of_eq_Some_iff [of kvs k v] by (auto simp add: ranges_def)

text \<open>
  The outcome depends only on the schema entries of the visited keys and on the raw values
  of the visited keys that the schema knows.
\<close>

lemma getPrimitive_raw_cong:
  "Raw d' k = Raw d k \<Longrightarrow> fst (getPrimitive L k s d') = fst (getPrimitive L k s d)"
  by (cases "Raw d k"; cases "Type s") (simp_all add: getPrimitive_def split: sum.split)

lemma Validate_cong:
  "\<forall>(k, v) \<in> set kvs. Schema d' k = Schema d k \<and> (Schema d k \<noteq> None \<longrightarrow> Raw d' k = Raw d k) \<Longrightarrow>
   fst (Validate L kvs d') = fst (Validate L kvs d)"
proof (induction kvs)
  case Nil
  show ?case by simp
next
  case (Cons kv kvs)
  obtain k v where kv: "kv = (k, v)" by (cases kv)
  from Cons have IH: "fst (Validate L kvs d') = fst (Validate L kvs d)" by simp
  from Cons.prems kv have schema: "Schema d' k = Schema d k"
    and raw: "Schema d k \<noteq> None \<longrightarrow> Raw d' k = Raw d k" by simp_all
  show ?case
  proof (cases "Schema d k")
    case None
    with schema IH kv show ?thesis by (simp add: Validate_skip del: Validate.simps)
  next
    case (Some s)
    with schema have s': "Schema d' k = Some s" by simp
    show ?thesis
    proof (cases "recognized (Type s)")
      case False
      with Some s' kv show ?thesis by (simp add: Validate_unrecognized del: Validate.simps)
    next
      case True
      obtain x b e where r: "getPrimitive L k s d = (Return (x, b, e), d)"
        using getPrimitive_returns [OF True, of L k d] by (metis prod_cases3)
      from Some raw have "Raw d' k = Raw d k" by simp
      then have "fst (getPrimitive L k s d') = fst (getPrimitive L k s d)"
        by (rule getPrimitive_raw_cong)
      with r have "fst (getPrimitive L k s d') = Return (x, b, e)" by simp
      then have r': "getPrimitive L k s d' = (Return (x, b, e), d')"
        by (rule pair_fst [OF getPrimitive_decoder])
      show ?thesis
      proof (cases e)
        case None
        with r r' IH kv show ?thesis
          using Validate_next [OF Some True, of L x b d v kvs]
            Validate_next [OF s' True, of L x b d' v kvs]
          by (simp del: Validate.simps)
      next
        case (Some e')
        with r r' kv show ?thesis
          using Validate_error [OF \<open>Schema d k = Some s\<close> True, of L x b e' d v kvs]
            Validate_error [OF s' True, of L x b e' d' v kvs]
          by (simp del: Validate.simps)
      qed
    qed
  qed
qed

lemma Validate_filter:
  "fst (Validate L (filter (\<lambda>(k, v). Schema d k \<noteq> None) kvs) d) = fst (Validate L kvs d)"
proof (induction kvs)
  case Nil
  show ?case by simp
next
  case (Cons kv kvs)
  obtain k v where kv: "kv = (k, v)" by (cases kv)
  show ?case
  proof (cases "Schema d k")
    case None
    with Cons kv show ?thesis by (simp add: Validate_skip del: Validate.simps)
  next
    case (Some s)
    show ?thesis
    proof (cases "recognized (Type s)")
      case False
      with Some kv show ?thesis by (simp add: Validate_unrecognized del: Validate.simps)
    next
      case True
      obtain x b e where r: "getPrimitive L k s d = (Return (x, b, e), d)"
        using getPrimitive_returns [OF True, of L k d] by (metis prod_cases3)
      show ?thesis
      proof (cases e)
        case None
        with r Cons kv Some show ?thesis
          using Validate_next [OF Some True, of L x b d v]
          by (simp del: Validate.simps)
      next
        case (Some e')
        with r kv \<open>Schema d k = Some s\<close> show ?thesis
          using Validate_error [OF \<open>Schema d k = Some s\<close> True, of L x b e' d v]
          by (simp del: Validate.simps)
      qed
    qed
  qed
qed

text \<open>
  C1, as the claim states it, fails: with two offending keys the error is that of the key
  visited first. Here the raw record has a duration field that does not coerce and a field
  of an unrecognized type; visited in this order, \<open>Validate\<close> returns the conversion
  error of the first, which names neither the second field nor its type.
\<close>

theorem Validate_first_offender_counterexample:
  "ranges offending_visit (decoder (map_of offending_visit))
   \<and> Raw (decoder (map_of offending_visit)) ''odd'' = Some (VInt 1)
   \<and> Schema (decoder (map_of offending_visit)) ''odd''
       = Some \<lparr>Type = TypeUnrecognized 0, Default = VNil\<rparr>
   \<and> \<not> recognized (TypeUnrecognized 0)
   \<and> fst (Validate spec_libs offending_visit (decoder (map_of offending_visit)))
       = Return (Some (ErrorConverting (VBool True) ''ttl'' (InvalidInput (VBool True))))"
  by (simp add: offending_visit_def ranges_def decoder_def example_schema_def recognized_def
      getPrimitive_def getDurationSecond_def)

text \<open>
  C1, amended. For a visit of the raw record in any order: \<open>Validate\<close> returns, and it
  returns success if and only if every key that is in both the raw record and the schema
  coerces under its declared type, which an unrecognized type never does. Keys of the raw
  record that the schema does not know do not affect the outcome, and schema entries for
  keys absent from the raw record are not consulted. If a present key of the schema has an
  unrecognized type, \<open>Validate\<close> returns an error. The error is that of the first
  offending key of the visit: the unknown-type error naming the field and the type if that
  key's type is unrecognized; the conversion error naming the raw value, the field and the
  error that \<^verbatim>\<open>getPrimitive\<close> returns for the key if its coercion fails. Coercion is
  that of the code: \<open>coercion_fails\<close> is the table of \<^verbatim>\<open>getPrimitive\<close>, with the
  numeric kinds of the duration case that its type switch lists.
\<close>

theorem Validate_amended:
  assumes "ranges kvs d"
  shows "(fst (Validate L kvs d) = Return None \<longleftrightarrow>
            (\<forall>k raw s. Raw d k = Some raw \<and> Schema d k = Some s \<longrightarrow> coerces L s raw))
   \<and> (\<exists>e. fst (Validate L kvs d) = Return e)
   \<and> fst (Validate L (filter (\<lambda>(k, v). Schema d k \<noteq> None) kvs)
            (d\<lparr>Raw := Raw d |` dom (Schema d)\<rparr>)) = fst (Validate L kvs d)
   \<and> (\<forall>S. (\<forall>k \<in> dom (Raw d). S k = Schema d k) \<longrightarrow>
          fst (Validate L kvs (d\<lparr>Schema := S\<rparr>)) = fst (Validate L kvs d))
   \<and> (\<forall>k raw s. Raw d k = Some raw \<and> Schema d k = Some s \<and> \<not> recognized (Type s) \<longrightarrow>
          (\<exists>e. fst (Validate L kvs d) = Return (Some e)))
   \<and> (\<forall>pre k raw post s.
          kvs = pre @ (k, raw) # post
          \<and> (\<forall>(k', v') \<in> set pre. \<forall>s'. Schema d k' = Some s' \<longrightarrow> coerces L s' v')
          \<and> Schema d k = Some s \<and> \<not> recognized (Type s) \<longrightarrow>
          fst (Validate L kvs d) = Return (Some (UnknownFieldType (Type s) k)))
   \<and> (\<forall>pre k raw post s.
          kvs = pre @ (k, raw) # post
          \<and> (\<forall>(k', v') \<in> set pre. \<forall>s'. Schema d k' = Some s' \<longrightarrow> coerces L s' v')
          \<and> Schema d k = Some s \<and> recognized (Type s) \<and> coercion_fails L (Type s) raw \<longrightarrow>
          (\<exists>x ok e. fst (getPrimitive L k s d) = Return (x, ok, Some e)
             \<and> fst (Validate L kvs d) = Return (Some (ErrorConverting raw k e))))
   \<and> (\<forall>pre k raw post s x ok e.
          kvs = pre @ (k, raw) # post
          \<and> (\<forall>(k', v') \<in> set pre. \<forall>s'. Schema d k' = Some s' \<longrightarrow> coerces L s' v')
          \<and> Schema d k = Some s \<and> recognized (Type s)
          \<and> fst (getPrimitive L k s d) = Return (x, ok, Some e) \<longrightarrow>
          fst (Validate L kvs d) = Return (Some (ErrorConverting raw k e)))"
proof -
  have visited: "(k, v) \<in> set kvs \<longleftrightarrow> Raw d k = Some v" for k v
    using assms by (rule ranges_set)
  then have raws: "\<forall>(k, v) \<in> set kvs. Raw d k = Some v" by auto
  have success: "fst (Validate L kvs d) = Return None \<longleftrightarrow>
      (\<forall>k raw s. Raw d k = Some raw \<and> Schema d k = Some s \<longrightarrow> coerces L s raw)"
  proof -
    have "(\<forall>(k, v) \<in> set kvs. \<forall>s. Schema d k = Some s \<longrightarrow> coerces L s v) \<longleftrightarrow>
        (\<forall>k raw s. Raw d k = Some raw \<and> Schema d k = Some s \<longrightarrow> coerces L s raw)"
      by (simp add: Ball_def visited) blast
    with Validate_success [OF raws, of L] show ?thesis by simp
  qed
  have returns: "\<exists>e. fst (Validate L kvs d) = Return e"
    using Validate_returns [of L kvs d] by auto
  have extras: "fst (Validate L (filter (\<lambda>(k, v). Schema d k \<noteq> None) kvs)
            (d\<lparr>Raw := Raw d |` dom (Schema d)\<rparr>)) = fst (Validate L kvs d)"
  proof -
    have "fst (Validate L (filter (\<lambda>(k, v). Schema d k \<noteq> None) kvs)
            (d\<lparr>Raw := Raw d |` dom (Schema d)\<rparr>))
          = fst (Validate L (filter (\<lambda>(k, v). Schema d k \<noteq> None) kvs) d)"
    proof (rule Validate_cong, clarsimp)
      fix k s
      assume "Schema d k = Some s"
      then have "k \<in> dom (Schema d)" by auto
      then show "(Raw d |` dom (Schema d)) k = Raw d k" by simp
    qed
    also have "\<dots> = fst (Validate L kvs d)" by (rule Validate_filter)
    finally show ?thesis .
  qed
  have unvisited: "fst (Validate L kvs (d\<lparr>Schema := S\<rparr>)) = fst (Validate L kvs d)"
    if "\<forall>k \<in> dom (Raw d). S k = Schema d k" for S
  proof (rule Validate_cong, clarsimp)
    fix k v
    assume "(k, v) \<in> set kvs"
    with visited have "k \<in> dom (Raw d)" by auto
    with that show "S k = Schema d k" by blast
  qed
  have offender: "\<exists>e. fst (Validate L kvs d) = Return (Some e)"
    if "Raw d k = Some raw" "Schema d k = Some s" "\<not> recognized (Type s)" for k raw s
  proof -
    from that have "\<not> coerces L s raw" by (simp add: coerces_def)
    with that success have "fst (Validate L kvs d) \<noteq> Return None" by blast
    with returns show ?thesis by auto
  qed
  have first_unknown: "fst (Validate L kvs d) = Return (Some (UnknownFieldType (Type s) k))"
    if split: "kvs = pre @ (k, raw) # post"
      and pre: "\<forall>(k', v') \<in> set pre. \<forall>s'. Schema d k' = Some s' \<longrightarrow> coerces L s' v'"
      and s: "Schema d k = Some s" "\<not> recognized (Type s)"
    for pre k raw post s
  proof -
    from split raws pre
    have "\<forall>(k', v') \<in> set pre.
            Raw d k' = Some v' \<and> (\<forall>s'. Schema d k' = Some s' \<longrightarrow> coerces L s' v')"
      by auto
    then have "Validate L (pre @ (k, raw) # post) d = Validate L ((k, raw) # post) d"
      by (rule Validate_prefix)
    with split s show ?thesis
      by (simp add: Validate_unrecognized del: Validate.simps)
  qed
  have first_error: "fst (Validate L kvs d) = Return (Some (ErrorConverting raw k e))"
    if split: "kvs = pre @ (k, raw) # post"
      and pre: "\<forall>(k', v') \<in> set pre. \<forall>s'. Schema d k' = Some s' \<longrightarrow> coerces L s' v'"
      and s: "Schema d k = Some s" "recognized (Type s)"
      and r: "fst (getPrimitive L k s d) = Return (x, ok, Some e)"
    for pre k raw post s x ok e
  proof -
    from split raws pre
    have "\<forall>(k', v') \<in> set pre.
            Raw d k' = Some v' \<and> (\<forall>s'. Schema d k' = Some s' \<longrightarrow> coerces L s' v')"
      by auto
    then have eq: "Validate L (pre @ (k, raw) # post) d = Validate L ((k, raw) # post) d"
      by (rule Validate_prefix)
    from r have "getPrimitive L k s d = (Return (x, ok, Some e), d)"
      by (rule pair_fst [OF getPrimitive_decoder])
    from Validate_error [OF s this, of raw post] split eq show ?thesis
      by (simp del: Validate.simps)
  qed
  have first_coercion: "\<exists>x ok e. fst (getPrimitive L k s d) = Return (x, ok, Some e)
      \<and> fst (Validate L kvs d) = Return (Some (ErrorConverting raw k e))"
    if split: "kvs = pre @ (k, raw) # post"
      and pre: "\<forall>(k', v') \<in> set pre. \<forall>s'. Schema d k' = Some s' \<longrightarrow> coerces L s' v'"
      and s: "Schema d k = Some s" "recognized (Type s)" "coercion_fails L (Type s) raw"
    for pre k raw post s
  proof -
    from split raws pre
    have "\<forall>(k', v') \<in> set pre.
            Raw d k' = Some v' \<and> (\<forall>s'. Schema d k' = Some s' \<longrightarrow> coerces L s' v')"
      by auto
    then have eq: "Validate L (pre @ (k, raw) # post) d = Validate L ((k, raw) # post) d"
      by (rule Validate_prefix)
    from split raws have "Raw d k = Some raw" by auto
    from Validate_fail_coercion [OF this s, of post] obtain x ok e
      where "getPrimitive L k s d = (Return (x, ok, Some e), d)"
        and "Validate L ((k, raw) # post) d = (Return (Some (ErrorConverting raw k e)), d)"
      by blast
    with split eq have "fst (getPrimitive L k s d) = Return (x, ok, Some e)
        \<and> fst (Validate L kvs d) = Return (Some (ErrorConverting raw k e))"
      by (simp del: Validate.simps)
    then show ?thesis by blast
  qed
  show ?thesis
  proof (intro conjI allI impI, goal_cases)
    case 1
    show ?case by (rule success)
  next
    case 2
    show ?case by (rule returns)
  next
    case 3
    show ?case by (rule extras)
  next
    case (4 S)
    then show ?case by (rule unvisited)
  next
    case (5 k raw s)
    then show ?case using offender [of k raw s] by blast
  next
    case (6 pre k raw post s)
    then show ?case using first_unknown [of pre k raw post s] by blast
  next
    case (7 pre k raw post s)
    then show ?case using first_coercion [of pre k raw post s] by blast
  next
    case (8 pre k raw post s x ok e)
    then show ?case using first_error [of pre k raw post s x ok e] by blast
  qed
qed

theorem Validate_amended_witness:
  "ranges clean_visit (decoder (map_of clean_visit))
   \<and> fst (Validate spec_libs clean_visit (decoder (map_of clean_visit))) = Return None
   \<and> ranges odd_visit (decoder (map_of odd_visit))
   \<and> fst (Validate spec_libs odd_visit (decoder (map_of odd_visit)))
       = Return (Some (UnknownFieldType (TypeUnrecognized 0) ''odd''))
   \<and> ranges offending_visit (decoder (map_of offending_visit))
   \<and> fst (Validate spec_libs offending_visit (decoder (map_of offending_visit)))
       = Return (Some (ErrorConverting (VBool True) ''ttl'' (InvalidInput (VBool True))))
   \<and> (\<exists>x ok e.
         fst (getPrimitive spec_libs ''ttl'' \<lparr>Type = TypeDurationSecond, Default = VInt 30\<rparr>
                (decoder (map_of offending_visit))) = Return (x, ok, Some e)
         \<and> fst (Validate spec_libs offending_visit (decoder (map_of offending_visit)))
             = Return (Some (ErrorConverting (VBool True) ''ttl'' e)))"
proof -
  let ?note = "\<lparr>Type = TypeString, Default = VNil\<rparr>"
  let ?ttl = "\<lparr>Type = TypeDurationSecond, Default = VInt 30\<rparr>"
  let ?odd = "\<lparr>Type = TypeUnrecognized 0, Default = VNil\<rparr>"
  have schema: "Schema (decoder raw) ''note'' = Some ?note"
    "Schema (decoder raw) ''ttl'' = Some ?ttl" "Schema (decoder raw) ''odd'' = Some ?odd"
    "Schema (decoder raw) ''extra'' = None" for raw
    by (simp_all add: decoder_def example_schema_def)
  have note_ok: "coerces spec_libs ?note (VString ''hello'')"
    by (simp add: coerces_def recognized_def coercion_fails_def spec_libs_def)
  have ttl_ok: "coerces spec_libs ?ttl (VInt 90)"
    by (simp add: coerces_def recognized_def coercion_fails_def numeric_seconds_def)
  have bad: "recognized (Type ?ttl)" "coercion_fails spec_libs (Type ?ttl) (VBool True)"
    "\<not> recognized (Type ?odd)"
    by (simp_all add: recognized_def coercion_fails_def numeric_seconds_def)
  have r1: "ranges clean_visit (decoder (map_of clean_visit))"
    by (simp add: ranges_def clean_visit_def decoder_def)
  have r2: "ranges odd_visit (decoder (map_of odd_visit))"
    by (simp add: ranges_def odd_visit_def decoder_def)
  have r3: "ranges offending_visit (decoder (map_of offending_visit))"
    by (simp add: ranges_def offending_visit_def decoder_def)
  have all: "\<forall>k raw s. Raw (decoder (map_of clean_visit)) k = Some raw
      \<and> Schema (decoder (map_of clean_visit)) k = Some s \<longrightarrow> coerces spec_libs s raw"
    using note_ok ttl_ok schema [of "map_of clean_visit"]
    by (auto simp add: clean_visit_def decoder_def split: if_splits)
  have "fst (Validate spec_libs clean_visit (decoder (map_of clean_visit))) = Return None"
    using Validate_amended [OF r1, of spec_libs, THEN conjunct1] all by (rule iffD2)
  moreover have "fst (Validate spec_libs odd_visit (decoder (map_of odd_visit)))
       = Return (Some (UnknownFieldType (TypeUnrecognized 0) ''odd''))"
  proof -
    have "odd_visit = [(''note'', VString ''hello'')] @ (''odd'', VInt 1) # [(''ttl'', VBool True)]
        \<and> (\<forall>(k', v') \<in> set [(''note'', VString ''hello'')].
              \<forall>s'. Schema (decoder (map_of odd_visit)) k' = Some s' \<longrightarrow> coerces spec_libs s' v')
        \<and> Schema (decoder (map_of odd_visit)) ''odd'' = Some ?odd \<and> \<not> recognized (Type ?odd)"
      using note_ok schema(1,3) [of "map_of odd_visit"] bad(3)
      by (simp add: odd_visit_def)
    from Validate_amended [OF r2, of spec_libs, THEN conjunct2, THEN conjunct2,
        THEN conjunct2, THEN conjunct2, THEN conjunct2, THEN conjunct1, rule_format, OF this]
    show ?thesis by simp
  qed
  moreover have "fst (Validate spec_libs offending_visit (decoder (map_of offending_visit)))
       = Return (Some (ErrorConverting (VBool True) ''ttl'' (InvalidInput (VBool True))))"
  proof -
    have "offending_visit = [] @ (''ttl'', VBool True) # [(''odd'', VInt 1)]
        \<and> (\<forall>(k', v') \<in> set [].
              \<forall>s'. Schema (decoder (map_of offending_visit)) k' = Some s'
                \<longrightarrow> coerces spec_libs s' v')
        \<and> Schema (decoder (map_of offending_visit)) ''ttl'' = Some ?ttl
        \<and> recognized (Type ?ttl)
        \<and> fst (getPrimitive spec_libs ''ttl'' ?ttl (decoder (map_of offending_visit)))
            = Return (VNil, False, Some (InvalidInput (VBool True)))"
      using schema(2) [of "map_of offending_visit"] bad(1)
      by (simp add: offending_visit_def decoder_def getPrimitive_def getDurationSecond_def)
    from Validate_amended [OF r3, of spec_libs, THEN conjunct2, THEN conjunct2,
        THEN conjunct2, THEN conjunct2, THEN conjunct2, THEN conjunct2, THEN conjunct2,
        rule_format, OF this]
    show ?thesis .
  qed
  moreover have "\<exists>x ok e.
         fst (getPrimitive spec_libs ''ttl'' ?ttl (decoder (map_of offending_visit)))
           = Return (x, ok, Some e)
         \<and> fst (Validate spec_libs offending_visit (decoder (map_of offending_visit)))
             = Return (Some (ErrorConverting (VBool True) ''ttl'' e))"
  proof -
    have "offending_visit = [] @ (''ttl'', VBool True) # [(''odd'', VInt 1)]
        \<and> (\<forall>(k', v') \<in> set [].
              \<forall>s'. Schema (decoder (map_of offending_visit)) k' = Some s'
                \<longrightarrow> coerces spec_libs s' v')
        \<and> Schema (decoder (map_of offending_visit)) ''ttl'' = Some ?ttl
        \<and> recognized (Type ?ttl) \<and> coercion_fails spec_libs (Type ?ttl) (VBool True)"
      using schema(2) [of "map_of offending_visit"] bad(1,2)
      by (simp add: offending_visit_def)
    from Validate_amended [OF r3, of spec_libs, THEN conjunct2, THEN conjunct2,
        THEN conjunct2, THEN conjunct2, THEN conjunct2, THEN conjunct2, THEN conjunct1,
        rule_format, OF this]
    show ?thesis .
  qed
  ultimately show ?thesis using r1 r2 r3 by simp
qed

end
